theory Spec2Isabelle
  imports Main "HOL-Library.Word"
begin

unbundle bit_operations_syntax

section \<open>Data model\<close>

text \<open>
  The buffer manager of \<^verbatim>\<open>BufferManager.cpp\<close> and the free list of
  \<^verbatim>\<open>FreeList.cpp\<close>, run by one thread at a time: every function takes the
  buffer-manager state and returns the updated one. A \<^verbatim>\<open>BufferFrame*\<close> is the
  index of the frame in the pool \<^verbatim>\<open>bfs\<close>; a \<^verbatim>\<open>Swip<BufferFrame>&\<close> is
  an address in the swip store. A thrown \<^verbatim>\<open>RestartException\<close> (and
  \<^verbatim>\<open>jumpmu::jump()\<close>, the free list's way to signal it) is \<open>Inl Restart\<close>, a
  failed \<^verbatim>\<open>assert\<close> is \<open>Inl Fatal\<close>, and a wait for another thread (a spin,
  a mutex held elsewhere, a read that has not finished) is \<open>Inl Blocked\<close>. The state
  reached when the exception leaves the function is returned with it.
\<close>

type_synonym u64 = "64 word"
type_synonym PID = u64
type_synonym bf_ptr = nat
type_synonym swip_ptr = nat
type_synonym fifo_iterator = nat

datatype error = Restart | Fatal | Blocked

datatype State = FREE | HOT | COLD

record Header =
  lastWrittenLSN :: u64
  state :: State
  isWB :: bool
  isCooledBecauseOfReading :: bool
  pid :: PID
  lock :: u64
  next_free_bf :: "bf_ptr option"

record Page =
  LSN :: u64
  dt_id :: u64
  magic_debugging_number :: u64
  dt :: "8 word list"

record BufferFrame =
  header :: Header
  page :: Page

datatype Swip = Swizzled bf_ptr | Unswizzled PID

datatype CIOState = READING | COOLING

record CIOFrame =
  cio_state :: CIOState
  fifo_itr :: fifo_iterator
  readers_counter :: int
  mutex_locked :: bool

text \<open>
  The cooling queue is a \<^verbatim>\<open>std::list<BufferFrame*>\<close>: a list of nodes, each with
  an identity of its own (what an iterator points to) and the frame pointer it holds.
  \<open>next_node\<close> is the identity the next \<^verbatim>\<open>push_back\<close> gives its node.
\<close>

record PartitionTable =
  ht :: "PID \<rightharpoonup> CIOFrame"
  cooling_queue :: "(fifo_iterator \<times> bf_ptr) list"
  next_node :: fifo_iterator

record FreeList =
  head :: "bf_ptr option"
  counter :: u64

text \<open>
  The file behind \<^verbatim>\<open>ssd_fd\<close> is seen in two ways. \<open>ssd p\<close> is the image of
  page \<open>p\<close>, the bytes from \<open>p * PAGE_SIZE\<close> on. \<open>ssd_partial off r dest\<close> is
  what a page buffer holding \<open>dest\<close> holds after the \<open>r\<close> bytes of the file that
  start at byte \<open>off\<close> have been copied to its beginning, when these bytes are not
  a whole page: a value that depends on the file's bytes and on the layout of
  \<^verbatim>\<open>Page\<close>, which are not among the sources.
\<close>

record BufferManager =
  bfs :: "bf_ptr \<Rightarrow> BufferFrame"
  dram_free_list :: FreeList
  the_partition :: PartitionTable
  cooling_bfs_counter :: u64
  ssd_used_pages_counter :: u64
  swips :: "swip_ptr \<Rightarrow> Swip"
  ssd :: "PID \<Rightarrow> Page"
  ssd_partial :: "u64 \<Rightarrow> int \<Rightarrow> Page \<Rightarrow> Page"

record ReadGuard =
  version_ptr :: bf_ptr
  local_version :: u64

record AsyncWriteBuffer =
  batch_max_size :: nat
  batch :: "(bf_ptr \<times> u64) list"

section \<open>Frame headers and latches\<close>

text \<open>
  Modelled from the spec: \<^verbatim>\<open>BufferFrame.hpp\<close> (the default member initialisers
  of \<^verbatim>\<open>BufferFrame::Header\<close>, and \<^verbatim>\<open>isDirty\<close>) is not among the sources.
  The spec's "FREE default" of a header: state FREE, no flag set, nothing written,
  latch free, no successor in the free list. The spec leaves the pid of a FREE frame
  undefined; the model puts 0 there.
\<close>

definition Header_init :: Header where
  "Header_init = \<lparr>lastWrittenLSN = 0, state = FREE, isWB = False,
     isCooledBecauseOfReading = False, pid = 0, lock = 0, next_free_bf = None\<rparr>"

text \<open>
  Modelled from the spec: a frame is clean when \<open>last_written_lsn == page.LSN\<close>
  (4.5.2), and dirty otherwise.
\<close>

definition isDirty :: "BufferFrame \<Rightarrow> bool" where
  "isDirty bf = (lastWrittenLSN (header bf) \<noteq> LSN (page bf))"

text \<open>
  The source writes \<^verbatim>\<open>header.lock = 2; // Write lock\<close>: the exclusive bit of
  the version word has the value 2.
\<close>

definition exclusively_latched :: "u64 \<Rightarrow> bool" where
  "exclusively_latched l = (l AND 2 = 2)"

definition set_header :: "bf_ptr \<Rightarrow> (Header \<Rightarrow> Header) \<Rightarrow> BufferManager \<Rightarrow> BufferManager" where
  "set_header b f s = s\<lparr>bfs := (bfs s)(b := (bfs s b)\<lparr>header := f (header (bfs s b))\<rparr>)\<rparr>"

definition set_page :: "bf_ptr \<Rightarrow> (Page \<Rightarrow> Page) \<Rightarrow> BufferManager \<Rightarrow> BufferManager" where
  "set_page b f s = s\<lparr>bfs := (bfs s)(b := (bfs s b)\<lparr>page := f (page (bfs s b))\<rparr>)\<rparr>"

text \<open>
  Modelled from the spec: \<^verbatim>\<open>ReadGuard\<close> and \<^verbatim>\<open>ExclusiveGuard\<close> are declared
  in a header that is not among the sources. \<open>recheck\<close> fails when the version
  changed since the guard was taken. The upgrade to an exclusive guard sets the
  exclusive bit by a compare-and-swap against the guard's version and fails with
  Restart otherwise; the release clears the bit and advances the version. The guard
  follows the version it produced, so it stays valid for its owner.
\<close>

definition recheck :: "ReadGuard \<Rightarrow> BufferManager \<Rightarrow> bool" where
  "recheck g s = (local_version g = lock (header (bfs s (version_ptr g))))"

definition ExclusiveGuard_acquire ::
  "ReadGuard \<Rightarrow> BufferManager \<Rightarrow> (error + ReadGuard) \<times> BufferManager" where
  "ExclusiveGuard_acquire g s =
     (if lock (header (bfs s (version_ptr g))) \<noteq> local_version g
         \<or> exclusively_latched (local_version g)
      then (Inl Restart, s)
      else (Inr (g\<lparr>local_version := local_version g + 2\<rparr>),
            set_header (version_ptr g) (lock_update (\<lambda>_. local_version g + 2)) s))"

definition ExclusiveGuard_release ::
  "ReadGuard \<Rightarrow> BufferManager \<Rightarrow> ReadGuard \<times> BufferManager" where
  "ExclusiveGuard_release g s =
     (let v = lock (header (bfs s (version_ptr g))) + 2
      in (g\<lparr>local_version := v\<rparr>, set_header (version_ptr g) (lock_update (\<lambda>_. v)) s))"

section \<open>FreeList.cpp\<close>

text \<open>
  \<^verbatim>\<open>FreeList::push\<close>. With one thread running, the compare-and-swap on
  \<^verbatim>\<open>head\<close> compares it with the value just loaded and succeeds at once.
\<close>

definition FreeList_push :: "bf_ptr \<Rightarrow> BufferManager \<Rightarrow> (error + unit) \<times> BufferManager" where
  "FreeList_push bf s =
     (if state (header (bfs s bf)) \<noteq> FREE then (Inl Fatal, s)
      else if exclusively_latched (lock (header (bfs s bf))) then (Inl Fatal, s)
      else (Inr (),
            (set_header bf (next_free_bf_update (\<lambda>_. head (dram_free_list s))) s)
              \<lparr>dram_free_list :=
                 \<lparr>head = Some bf, counter = counter (dram_free_list s) + 1\<rparr>\<rparr>))"

text \<open>
  \<^verbatim>\<open>FreeList::pop\<close>. An empty list (\<^verbatim>\<open>head == nullptr\<close>) skips the loop and
  jumps. Otherwise the compare-and-swap succeeds in the first round, the head is
  detached, and the two assertions are checked on the detached frame.
\<close>

definition FreeList_pop :: "BufferManager \<Rightarrow> (error + bf_ptr) \<times> BufferManager" where
  "FreeList_pop s =
     (case head (dram_free_list s) of
        None \<Rightarrow> (Inl Restart, s)
      | Some c_header \<Rightarrow>
          (let next = next_free_bf (header (bfs s c_header));
               s1 = s\<lparr>dram_free_list := (dram_free_list s)\<lparr>head := next\<rparr>\<rparr>;
               s2 = set_header c_header (next_free_bf_update (\<lambda>_. None)) s1;
               s3 = s2\<lparr>dram_free_list :=
                        (dram_free_list s2)\<lparr>counter := counter (dram_free_list s2) - 1\<rparr>\<rparr>
           in if exclusively_latched (lock (header (bfs s3 c_header))) then (Inl Fatal, s3)
              else if state (header (bfs s3 c_header)) \<noteq> FREE then (Inl Fatal, s3)
              else (Inr c_header, s3)))"

section \<open>BufferManager::allocatePage\<close>

definition allocatePage :: "BufferManager \<Rightarrow> (error + bf_ptr) \<times> BufferManager" where
  "allocatePage s =
     (if counter (dram_free_list s) < 10 then (Inl Restart, s)
      else
        (let free_pid = ssd_used_pages_counter s;
             s1 = s\<lparr>ssd_used_pages_counter := ssd_used_pages_counter s + 1\<rparr>
         in case FreeList_pop s1 of
              (Inl e, s2) \<Rightarrow> (Inl e, s2)
            | (Inr free_bf, s2) \<Rightarrow>
                if state (header (bfs s2 free_bf)) \<noteq> FREE then (Inl Fatal, s2)
                else
                  (let s3 = set_header free_bf (lock_update (\<lambda>_. 2)) s2;
                       s4 = set_header free_bf (pid_update (\<lambda>_. free_pid)) s3;
                       s5 = set_header free_bf (state_update (\<lambda>_. HOT)) s4;
                       s6 = set_page free_bf (LSN_update (\<lambda>_. 0)) s5;
                       s7 = set_header free_bf (lastWrittenLSN_update (\<lambda>_. 0)) s6
                   in (Inr free_bf, s7))))"

section \<open>BufferManager::readPageSync\<close>

text \<open>
  The conversions the source makes: \<^verbatim>\<open>pread\<close> returns an \<^verbatim>\<open>ssize_t\<close>
  that is stored in a \<^verbatim>\<open>const int\<close> (the low 32 bits, read as signed), and
  \<^verbatim>\<open>bytes_left\<close> is an \<^verbatim>\<open>s64\<close> (64 bits, read as signed).
\<close>

definition to_int :: "int \<Rightarrow> int" where
  "to_int r = sint (word_of_int r :: 32 word)"

definition to_s64 :: "int \<Rightarrow> int" where
  "to_s64 x = sint (word_of_int x :: 64 word)"

text \<open>
  The \<^verbatim>\<open>do ... while\<close> loop of \<^verbatim>\<open>readPageSync\<close>. The device is a list of
  the values the successive \<^verbatim>\<open>pread\<close> calls return (negative on failure);
  \<^verbatim>\<open>PAGE_SIZE\<close> comes from a header that is not among the sources and is a
  parameter. The function records every request it issues as (count, offset), the
  offset computed in \<^verbatim>\<open>u64\<close> as the source does; every request names the
  beginning of the buffer, since the source passes \<^verbatim>\<open>destination\<close> unchanged.
  The result is \<open>None\<close> while the loop is still running when the list ends,
  \<open>Some (Inl Fatal)\<close> when the assertion fails, and \<open>Some (Inr reqs)\<close> when the
  function returns.
\<close>

fun readPageSync_loop ::
  "u64 \<Rightarrow> u64 \<Rightarrow> int \<Rightarrow> int list \<Rightarrow> (int \<times> u64) list \<Rightarrow> (error + (int \<times> u64) list) option" where
  "readPageSync_loop PAGE_SIZE pd bytes_left [] reqs = None"
| "readPageSync_loop PAGE_SIZE pd bytes_left (r # rest) reqs =
     (let reqs' = reqs @ [(bytes_left, pd * PAGE_SIZE + (PAGE_SIZE - word_of_int bytes_left))];
          bytes_read = to_int r
      in if \<not> bytes_left > 0 then Some (Inl Fatal)
         else if to_s64 (bytes_left - bytes_read) > 0
              then readPageSync_loop PAGE_SIZE pd (to_s64 (bytes_left - bytes_read)) rest reqs'
              else Some (Inr reqs'))"

definition readPageSync :: "u64 \<Rightarrow> u64 \<Rightarrow> int list \<Rightarrow> (error + (int \<times> u64) list) option" where
  "readPageSync PAGE_SIZE pd preads = readPageSync_loop PAGE_SIZE pd (sint PAGE_SIZE) preads []"

text \<open>
  What the device does to the page buffer on one \<^verbatim>\<open>pread\<close>: the request
  (count, offset) and the value \<open>r\<close> returned for it. A call that fails or
  delivers nothing leaves the buffer as it is. A call that delivers all
  \<^verbatim>\<open>PAGE_SIZE\<close> bytes of a page, from its first byte on, leaves the image of that
  page. Any other call leaves its \<open>r\<close> bytes at the beginning of the buffer, over
  what was there. A call that delivers more than \<^verbatim>\<open>PAGE_SIZE\<close> bytes writes
  beyond the buffer: undefined behaviour in C++, \<open>None\<close> here.
\<close>

definition pread_into ::
  "u64 \<Rightarrow> BufferManager \<Rightarrow> (int \<times> u64) \<times> int \<Rightarrow> Page \<Rightarrow> Page option" where
  "pread_into PAGE_SIZE s call dest =
     (case call of ((count, off), r) \<Rightarrow>
        if r \<le> 0 then Some dest
        else if uint PAGE_SIZE < r then None
        else if r = uint PAGE_SIZE \<and> off mod PAGE_SIZE = 0
        then Some (ssd s (off div PAGE_SIZE))
        else Some (ssd_partial s off r dest))"

text \<open>The buffer after a sequence of calls, each working on what the one before left.\<close>

fun pread_all ::
  "u64 \<Rightarrow> BufferManager \<Rightarrow> ((int \<times> u64) \<times> int) list \<Rightarrow> Page \<Rightarrow> Page option" where
  "pread_all PAGE_SIZE s [] dest = Some dest"
| "pread_all PAGE_SIZE s (call # calls) dest =
     (case pread_into PAGE_SIZE s call dest of
        None \<Rightarrow> None
      | Some dest' \<Rightarrow> pread_all PAGE_SIZE s calls dest')"

section \<open>Partition: cooling queue and hash table\<close>

definition upd_partition :: "(PartitionTable \<Rightarrow> PartitionTable) \<Rightarrow> BufferManager \<Rightarrow> BufferManager" where
  "upd_partition f s = s\<lparr>the_partition := f (the_partition s)\<rparr>"

text \<open>
  \<^verbatim>\<open>cooling_queue.push_back(bf)\<close> followed by \<^verbatim>\<open>--cooling_queue.end()\<close>: the
  new last node and the iterator to it.
\<close>

definition queue_push_back :: "bf_ptr \<Rightarrow> PartitionTable \<Rightarrow> PartitionTable" where
  "queue_push_back bf p =
     p\<lparr>cooling_queue := cooling_queue p @ [(next_node p, bf)], next_node := next_node p + 1\<rparr>"

definition queue_erase :: "fifo_iterator \<Rightarrow> PartitionTable \<Rightarrow> PartitionTable" where
  "queue_erase itr p = p\<lparr>cooling_queue := filter (\<lambda>n. fst n \<noteq> itr) (cooling_queue p)\<rparr>"

text \<open>
  Modelled from the spec: \<^verbatim>\<open>CIOFrame\<close> and \<^verbatim>\<open>HashTable\<close> are declared in a
  header that is not among the sources. A CIOFrame is (state, fifo_itr, mutex,
  readers_counter) with state READING or COOLING; a fresh one has no reader and a
  free mutex, and its creator assigns state and iterator before anyone reads them.
\<close>

definition CIOFrame_init :: CIOFrame where
  "CIOFrame_init = \<lparr>cio_state = READING, fifo_itr = 0, readers_counter = 0, mutex_locked = False\<rparr>"

definition ht_insert :: "PID \<Rightarrow> PartitionTable \<Rightarrow> PartitionTable" where
  "ht_insert pd p = p\<lparr>ht := (ht p)(pd \<mapsto> CIOFrame_init)\<rparr>"

definition ht_remove :: "PID \<Rightarrow> PartitionTable \<Rightarrow> PartitionTable" where
  "ht_remove pd p = p\<lparr>ht := (ht p)(pd := None)\<rparr>"

definition set_cio :: "PID \<Rightarrow> (CIOFrame \<Rightarrow> CIOFrame) \<Rightarrow> PartitionTable \<Rightarrow> PartitionTable" where
  "set_cio pd f p = p\<lparr>ht := (case ht p pd of None \<Rightarrow> ht p | Some c \<Rightarrow> (ht p)(pd \<mapsto> f c))\<rparr>"

section \<open>BufferManager::resolveSwip\<close>

text \<open>
  Case A, the page is not in the hash table. The partition mutex
  \<^verbatim>\<open>cio_mutex\<close> is free before and after every call of a single thread and is
  not part of the state. With fewer than 10 free frames the source spins until another
  thread frees some, which a single thread never sees happen. The frame's page
  is what the device leaves in it when it serves, one after the other, the requests
  \<^verbatim>\<open>readPageSync\<close> issued, each answered by the value in \<open>preads\<close>; writing
  beyond the buffer stops the model with Fatal.
\<close>

definition resolveSwip_miss ::
  "u64 \<Rightarrow> int list \<Rightarrow> ReadGuard \<Rightarrow> PID \<Rightarrow> BufferManager
     \<Rightarrow> (error + bf_ptr) \<times> ReadGuard \<times> BufferManager" where
  "resolveSwip_miss PAGE_SIZE preads swip_guard pd s =
     (if counter (dram_free_list s) < 10 then (Inl Blocked, swip_guard, s)
      else
        (case FreeList_pop s of
           (Inl e, s1) \<Rightarrow> (Inl e, swip_guard, s1)
         | (Inr bf, s1) \<Rightarrow>
             (let s2 = upd_partition (ht_insert pd) s1
              in if state (header (bfs s2 bf)) \<noteq> FREE then (Inl Fatal, swip_guard, s2)
                 else
                   (let s3 = set_header bf (lock_update (\<lambda>_. 2)) s2;
                        s4 = upd_partition (set_cio pd (\<lambda>c. c\<lparr>cio_state := READING,
                               readers_counter := 1, mutex_locked := True\<rparr>)) s3
                    in case readPageSync PAGE_SIZE pd preads of
                         None \<Rightarrow> (Inl Blocked, swip_guard, s4)
                       | Some (Inl e) \<Rightarrow> (Inl e, swip_guard, s4)
                       | Some (Inr reqs) \<Rightarrow>
                           (case pread_all PAGE_SIZE s4 (zip reqs preads) (page (bfs s4 bf)) of
                              None \<Rightarrow> (Inl Fatal, swip_guard, s4)
                            | Some buffer \<Rightarrow>
                           (let s5 = set_page bf (\<lambda>_. buffer) s4
                            in if magic_debugging_number (page (bfs s5 bf)) \<noteq> pd
                               then (Inl Fatal, swip_guard, s5)
                               else
                                 (let s6 = set_header bf
                                        (lastWrittenLSN_update (\<lambda>_. LSN (page (bfs s5 bf)))) s5;
                                      s7 = set_header bf (state_update (\<lambda>_. COLD)) s6;
                                      s8 = set_header bf (isWB_update (\<lambda>_. False)) s7;
                                      s9 = set_header bf (pid_update (\<lambda>_. pd)) s8;
                                      s10 = upd_partition
                                        (set_cio pd (cio_state_update (\<lambda>_. COOLING))) s9;
                                      itr = next_node (the_partition s10);
                                      s11 = upd_partition (queue_push_back bf) s10;
                                      s12 = upd_partition
                                        (set_cio pd (fifo_itr_update (\<lambda>_. itr))) s11;
                                      s13 = s12\<lparr>cooling_bfs_counter := cooling_bfs_counter s12 + 1\<rparr>;
                                      s14 = set_header bf (lock_update (\<lambda>_. 0)) s13;
                                      s15 = set_header bf
                                        (isCooledBecauseOfReading_update (\<lambda>_. True)) s14;
                                      s16 = upd_partition
                                        (set_cio pd (mutex_locked_update (\<lambda>_. False))) s15
                                  in (Inl Restart, swip_guard, s16))))))))"

text \<open>
  Case B, another thread is reading the page. The caller registers as a reader and
  waits on the CIOFrame's mutex; while the reading thread holds it the call does not
  return.
\<close>

definition resolveSwip_reading ::
  "ReadGuard \<Rightarrow> PID \<Rightarrow> BufferManager \<Rightarrow> (error + bf_ptr) \<times> ReadGuard \<times> BufferManager" where
  "resolveSwip_reading swip_guard pd s =
     (let s1 = upd_partition (set_cio pd (\<lambda>c. c\<lparr>readers_counter := readers_counter c + 1\<rparr>)) s
      in case ht (the_partition s1) pd of
           None \<Rightarrow> (Inl Fatal, swip_guard, s1)
         | Some c \<Rightarrow>
             if mutex_locked c then (Inl Blocked, swip_guard, s1)
             else
               (let s2 = upd_partition
                      (set_cio pd (\<lambda>c. c\<lparr>readers_counter := readers_counter c - 1\<rparr>)) s1
                in if readers_counter c = 1
                   then (case ht (the_partition s2) pd of
                           None \<Rightarrow> (Inl Restart, swip_guard, s2)
                         | Some c2 \<Rightarrow>
                             if readers_counter c2 = 0
                             then (Inl Restart, swip_guard, upd_partition (ht_remove pd) s2)
                             else (Inl Restart, swip_guard, s2))
                   else (Inl Restart, swip_guard, s2)))"

text \<open>
  Case C, the page is cooling. The function returns, with its result, the states it
  goes through, one after each write, in program order; the last one is the state it
  leaves. Dereferencing an iterator that is not in the queue is undefined behaviour in
  C++ and stops the model with Fatal. The statistics counters are not modelled.
\<close>

definition resolveSwip_cooling ::
  "ReadGuard \<Rightarrow> swip_ptr \<Rightarrow> PID \<Rightarrow> CIOFrame \<Rightarrow> BufferManager
     \<Rightarrow> (error + bf_ptr) \<times> ReadGuard \<times> BufferManager list" where
  "resolveSwip_cooling swip_guard swip_value pd cio_frame s =
     (case map_of (cooling_queue (the_partition s)) (fifo_itr cio_frame) of
        None \<Rightarrow> (Inl Fatal, swip_guard, [s])
      | Some bf \<Rightarrow>
          (case ExclusiveGuard_acquire swip_guard s of
             (Inl e, s0) \<Rightarrow> (Inl e, swip_guard, [s0])
           | (Inr g, s0) \<Rightarrow>
               if pid (header (bfs s0 bf)) \<noteq> pd then (Inl Fatal, g, [s0])
               else
                 (let s1 = s0\<lparr>swips := (swips s0)(swip_value := Swizzled bf)\<rparr>;
                      s2 = upd_partition (queue_erase (fifo_itr cio_frame)) s1;
                      s3 = s2\<lparr>cooling_bfs_counter := cooling_bfs_counter s2 - 1\<rparr>
                  in if state (header (bfs s3 bf)) \<noteq> COLD then (Inl Fatal, g, [s0, s1, s2, s3])
                     else
                       (let s4 = set_header bf (state_update (\<lambda>_. HOT)) s3;
                            cooled = isCooledBecauseOfReading (header (bfs s4 bf));
                            s5 = (if cooled
                                  then upd_partition (set_cio pd
                                         (\<lambda>c. c\<lparr>readers_counter := readers_counter c - 1\<rparr>)) s4
                                  else s4);
                            should_clean = (\<not> (cooled \<and> readers_counter cio_frame > 1));
                            s6 = (if should_clean then upd_partition (ht_remove pd) s5 else s5);
                            s7 = snd (ExclusiveGuard_release g s6)
                        in (Inr bf, fst (ExclusiveGuard_release g s6),
                            [s0, s1, s2, s3, s4, s5, s6, s7])))))"

definition resolveSwip ::
  "u64 \<Rightarrow> int list \<Rightarrow> ReadGuard \<Rightarrow> swip_ptr \<Rightarrow> BufferManager
     \<Rightarrow> (error + bf_ptr) \<times> ReadGuard \<times> BufferManager" where
  "resolveSwip PAGE_SIZE preads swip_guard swip_value s =
     (case swips s swip_value of
        Swizzled bf \<Rightarrow>
          if recheck swip_guard s then (Inr bf, swip_guard, s) else (Inl Restart, swip_guard, s)
      | Unswizzled pd \<Rightarrow>
          if \<not> recheck swip_guard s then (Inl Restart, swip_guard, s)
          else
            (case ht (the_partition s) pd of
               None \<Rightarrow> resolveSwip_miss PAGE_SIZE preads swip_guard pd s
             | Some cio_frame \<Rightarrow>
                 (case cio_state cio_frame of
                    READING \<Rightarrow> resolveSwip_reading swip_guard pd s
                  | COOLING \<Rightarrow>
                      (case resolveSwip_cooling swip_guard swip_value pd cio_frame s of
                         (r, g, tr) \<Rightarrow> (r, g, last tr)))))"

section \<open>BufferManager::pageProviderThread\<close>

text \<open>
  Modelled from the spec: \<^verbatim>\<open>AsyncWriteBuffer\<close> is not among the sources.
  \<open>add\<close> returns false when the buffer is saturated; otherwise it stages a copy of
  the page, records the LSN seen at copy time and sets \<open>is_wb\<close>.
\<close>

definition AsyncWriteBuffer_add ::
  "bf_ptr \<Rightarrow> AsyncWriteBuffer \<times> BufferManager \<Rightarrow> bool \<times> AsyncWriteBuffer \<times> BufferManager" where
  "AsyncWriteBuffer_add bf st =
     (case st of (awb, s) \<Rightarrow>
        if length (batch awb) \<ge> batch_max_size awb then (False, awb, s)
        else (True, awb\<lparr>batch := batch awb @ [(bf, LSN (page (bfs s bf)))]\<rparr>,
              set_header bf (isWB_update (\<lambda>_. True)) s))"

text \<open>
  Phase 1, the block that unswizzles a chosen frame (lines 133 to 166). The frame
  \<open>r_buffer\<close>, the read guard on it, and what \<^verbatim>\<open>dt_registry.findParent\<close>
  returns (the parent's swip and a guard on the parent) are arguments: the random
  choice and the registry are outside the sources. The result is \<open>Inr True\<close> when the
  frame was cooled and \<open>Inr False\<close> when its pid was already in the hash table. The
  exclusive guards are released when the block is left.
\<close>

definition phase_1_unswizzle ::
  "ReadGuard \<Rightarrow> bf_ptr \<Rightarrow> swip_ptr \<Rightarrow> ReadGuard \<Rightarrow> BufferManager
     \<Rightarrow> (error + bool) \<times> BufferManager" where
  "phase_1_unswizzle r_guard r_buffer parent_swip parent_guard s =
     (let pd = pid (header (bfs s r_buffer))
      in case ExclusiveGuard_acquire r_guard s of
           (Inl e, s1) \<Rightarrow> (Inl e, s1)
         | (Inr r_x_guard, s1) \<Rightarrow>
             (case ExclusiveGuard_acquire parent_guard s1 of
                (Inl e, s2) \<Rightarrow> (Inl e, snd (ExclusiveGuard_release r_x_guard s2))
              | (Inr p_x_guard, s2) \<Rightarrow>
                  if state (header (bfs s2 r_buffer)) \<noteq> HOT then (Inl Fatal, s2)
                  else if \<not> recheck p_x_guard s2 then (Inl Fatal, s2)
                  else if swips s2 parent_swip \<noteq> Swizzled r_buffer then (Inl Fatal, s2)
                  else if ht (the_partition s2) (pid (header (bfs s2 r_buffer))) \<noteq> None
                  then (Inr False,
                        snd (ExclusiveGuard_release r_x_guard
                               (snd (ExclusiveGuard_release p_x_guard s2))))
                  else
                    (let s3 = upd_partition (ht_insert pd) s2;
                         s4 = upd_partition (set_cio pd (cio_state_update (\<lambda>_. COOLING))) s3;
                         itr = next_node (the_partition s4);
                         s5 = upd_partition (queue_push_back r_buffer) s4;
                         s6 = upd_partition (set_cio pd (fifo_itr_update (\<lambda>_. itr))) s5;
                         s7 = set_header r_buffer (state_update (\<lambda>_. COLD)) s6;
                         s8 = set_header r_buffer
                                (isCooledBecauseOfReading_update (\<lambda>_. False)) s7;
                         s9 = s8\<lparr>swips := (swips s8)
                                (parent_swip := Unswizzled (pid (header (bfs s8 r_buffer))))\<rparr>;
                         s10 = s9\<lparr>cooling_bfs_counter := cooling_bfs_counter s9 + 1\<rparr>
                     in (Inr True,
                         snd (ExclusiveGuard_release r_x_guard
                                (snd (ExclusiveGuard_release p_x_guard s10)))))))"

text \<open>
  Phase 2, the body of the scan for the queue node \<open>bf_itr\<close> holding frame \<open>bf\<close>
  (lines 185 to 213). The debugging counters are not modelled.
\<close>

definition phase_2_visit ::
  "fifo_iterator \<Rightarrow> bf_ptr \<Rightarrow> AsyncWriteBuffer \<times> BufferManager
     \<Rightarrow> (error + unit) \<times> AsyncWriteBuffer \<times> BufferManager" where
  "phase_2_visit bf_itr bf st =
     (case st of (awb, s) \<Rightarrow>
        (let pd = pid (header (bfs s bf))
         in if \<not> isWB (header (bfs s bf)) \<and> \<not> isCooledBecauseOfReading (header (bfs s bf))
            then
              if \<not> isDirty (bfs s bf)
              then
                (case ht (the_partition s) pd of
                   None \<Rightarrow> (Inl Fatal, awb, s)
                 | Some frame_handler \<Rightarrow>
                     if cio_state frame_handler \<noteq> COOLING then (Inl Fatal, awb, s)
                     else if state (header (bfs s bf)) \<noteq> COLD then (Inl Fatal, awb, s)
                     else
                       (let s1 = upd_partition (queue_erase bf_itr) s;
                            s2 = upd_partition (ht_remove pd) s1;
                            s3 = set_header bf (\<lambda>_. Header_init) s2
                        in case FreeList_push bf s3 of
                             (Inl e, s4) \<Rightarrow> (Inl e, awb, s4)
                           | (Inr u, s4) \<Rightarrow>
                               (Inr (), awb,
                                s4\<lparr>cooling_bfs_counter := cooling_bfs_counter s4 - 1\<rparr>)))
              else
                (case AsyncWriteBuffer_add bf (awb, s) of
                   (added, awb', s') \<Rightarrow> (Inr (), awb', s'))
            else (Inr (), awb, s)))"

text \<open>
  The loop \<^verbatim>\<open>while (pages_left_to_process-- && bf_itr != cooling_queue.end())\<close>.
  The body erases no node but the current one, whose successor was taken before, so
  the scan walks the nodes the queue had when it started.
\<close>

fun phase_2_loop ::
  "u64 \<Rightarrow> (fifo_iterator \<times> bf_ptr) list \<Rightarrow> AsyncWriteBuffer \<times> BufferManager
     \<Rightarrow> (error + unit) \<times> AsyncWriteBuffer \<times> BufferManager" where
  "phase_2_loop pages_left_to_process [] st = (Inr (), st)"
| "phase_2_loop pages_left_to_process (node # rest) st =
     (if pages_left_to_process = 0 then (Inr (), st)
      else
        (case phase_2_visit (fst node) (snd node) st of
           (Inl e, st') \<Rightarrow> (Inl e, st')
         | (Inr u, st') \<Rightarrow> phase_2_loop (pages_left_to_process - 1) rest st'))"

text \<open>
  Phase 2. \<open>free_pages_limit\<close> is \<^verbatim>\<open>FLAGS_free * dram_pool_size / 100.0\<close>, a
  value fixed when the thread starts.
\<close>

definition phase_2 ::
  "u64 \<Rightarrow> AsyncWriteBuffer \<times> BufferManager
     \<Rightarrow> (error + unit) \<times> AsyncWriteBuffer \<times> BufferManager" where
  "phase_2 free_pages_limit st =
     (case st of (awb, s) \<Rightarrow>
        if counter (dram_free_list s) < free_pages_limit
        then
          (let pages_left_to_process =
                 (if counter (dram_free_list s) < free_pages_limit
                  then free_pages_limit - counter (dram_free_list s) else 0)
           in phase_2_loop pages_left_to_process (cooling_queue (the_partition s)) (awb, s))
        else (Inr (), awb, s))"

text \<open>
  Phase 3, the visitor called for a completed write of frame \<open>written_bf\<close> with the
  LSN recorded when the page was copied (lines 224 to 256). Nothing in its body
  throws Restart, so the retry loop around it runs once.
  \<^verbatim>\<open>new(&written_bf) BufferFrame\<close> constructs the whole frame anew: the header
  gets its defaults, and \<open>fresh\<close> is the payload the construction leaves (the spec
  calls the payload of a FREE frame indeterminate).
\<close>

definition phase_3_visit ::
  "Page \<Rightarrow> bf_ptr \<times> u64 \<Rightarrow> BufferManager \<Rightarrow> (error + unit) \<times> BufferManager" where
  "phase_3_visit fresh w s =
     (case w of (written_bf, written_lsn) \<Rightarrow>
        (let pd = pid (header (bfs s written_bf))
         in if \<not> isWB (header (bfs s written_bf)) then (Inl Fatal, s)
            else
              (let s1 = set_header written_bf (lastWrittenLSN_update (\<lambda>_. written_lsn)) s;
                   s2 = set_header written_bf (isWB_update (\<lambda>_. False)) s1
               in if state (header (bfs s2 written_bf)) = COLD
                  then
                    (case ht (the_partition s2) pd of
                       None \<Rightarrow> (Inl Fatal, s2)
                     | Some cio_frame \<Rightarrow>
                         if cio_state cio_frame \<noteq> COOLING then (Inl Fatal, s2)
                         else
                           (let s3 = upd_partition (queue_erase (fifo_itr cio_frame)) s2;
                                s4 = upd_partition (ht_remove pd) s3;
                                s5 = s4\<lparr>bfs := (bfs s4)
                                       (written_bf := \<lparr>header = Header_init, page = fresh\<rparr>)\<rparr>
                            in case FreeList_push written_bf s5 of
                                 (Inl e, s6) \<Rightarrow> (Inl e, s6)
                               | (Inr u, s6) \<Rightarrow>
                                   (Inr (),
                                    s6\<lparr>cooling_bfs_counter := cooling_bfs_counter s6 - 1\<rparr>)))
                  else (Inr (), s2))))"

text \<open>
  Modelled from the spec: \<open>get_written_bfs(visitor, n)\<close> calls the visitor for each
  of the first \<open>n\<close> completed writes and gives their slots back.
\<close>

fun getWrittenBfs ::
  "Page \<Rightarrow> (bf_ptr \<times> u64) list \<Rightarrow> BufferManager \<Rightarrow> (error + unit) \<times> BufferManager" where
  "getWrittenBfs fresh [] s = (Inr (), s)"
| "getWrittenBfs fresh (w # ws) s =
     (case phase_3_visit fresh w s of
        (Inl e, s') \<Rightarrow> (Inl e, s')
      | (Inr u, s') \<Rightarrow> getWrittenBfs fresh ws s')"

text \<open>
  Phase 3. \<open>polled_events\<close> is what \<^verbatim>\<open>pollEventsSync\<close> returned: the
  number of writes that have completed.
\<close>

definition phase_3 ::
  "nat \<Rightarrow> Page \<Rightarrow> AsyncWriteBuffer \<times> BufferManager
     \<Rightarrow> (error + unit) \<times> AsyncWriteBuffer \<times> BufferManager" where
  "phase_3 polled_events fresh st =
     (case st of (awb, s) \<Rightarrow>
        if cooling_bfs_counter s > 0
        then
          (case getWrittenBfs fresh (take polled_events (batch awb)) s of
             (r, s') \<Rightarrow> (r, awb\<lparr>batch := drop polled_events (batch awb)\<rparr>, s'))
        else (Inr (), awb, s))"

text \<open>
  Modelled from the spec: the index code that owns a HOT frame is not among the
  sources. It changes the payload in place and gives the page the LSN of the
  modification.
\<close>

definition modify_page :: "bf_ptr \<Rightarrow> u64 \<Rightarrow> BufferManager \<Rightarrow> BufferManager" where
  "modify_page bf lsn s = set_page bf (LSN_update (\<lambda>_. lsn)) s"

text \<open>
  The constructor of \<^verbatim>\<open>ReadGuard\<close> on a latch that is free: the guard
  remembers the version it saw.
\<close>

definition ReadGuard_of :: "bf_ptr \<Rightarrow> BufferManager \<Rightarrow> ReadGuard" where
  "ReadGuard_of b s = \<lparr>version_ptr = b, local_version = lock (header (bfs s b))\<rparr>"

text \<open>
  The scan as the specification words it (4.5.2): the frames of a list are visited in
  order, each by the body of the loop, and the scan stops at the first failure. It is
  compared with \<open>phase_2_loop\<close> below.
\<close>

fun scan_frames ::
  "(fifo_iterator \<times> bf_ptr) list \<Rightarrow> AsyncWriteBuffer \<times> BufferManager
     \<Rightarrow> (error + unit) \<times> AsyncWriteBuffer \<times> BufferManager" where
  "scan_frames [] st = (Inr (), st)"
| "scan_frames (node # rest) st =
     (case phase_2_visit (fst node) (snd node) st of
        (Inl e, st') \<Rightarrow> (Inl e, st')
      | (Inr u, st') \<Rightarrow> scan_frames rest st')"

section \<open>Example states\<close>

text \<open>
  A pool of 13 frames. Frames 0 to 11 are on the free list in the order the
  constructor pushes them (11 is the head, 0 the last); frame 12 is HOT and holds the
  root page 0, whose swip 0 names page 7 on disk. Page \<open>p\<close> on disk carries \<open>p\<close>
  as its magic number and LSN 5.
\<close>

definition ex_page :: "u64 \<Rightarrow> u64 \<Rightarrow> Page" where
  "ex_page p l = \<lparr>LSN = l, dt_id = 0, magic_debugging_number = p, dt = []\<rparr>"

text \<open>
  The example file has pages of 4096 bytes whose payload is zero. A read that
  starts at a page boundary and stops short brings the LSN and magic number of that
  page; a read that starts inside a page brings zeros in their place.
\<close>

definition ex_partial :: "u64 \<Rightarrow> int \<Rightarrow> Page \<Rightarrow> Page" where
  "ex_partial off r dest = (if off mod 4096 = 0 then ex_page (off div 4096) 5 else ex_page 0 0)"

definition ex_bfs :: "bf_ptr \<Rightarrow> BufferFrame" where
  "ex_bfs i =
     (if i = 12
      then \<lparr>header = Header_init\<lparr>state := HOT\<rparr>, page = ex_page 0 0\<rparr>
      else \<lparr>header = Header_init\<lparr>next_free_bf := (if i = 0 then None else Some (i - 1))\<rparr>,
            page = ex_page 0 0\<rparr>)"

definition ex_pool :: BufferManager where
  "ex_pool = \<lparr>bfs = ex_bfs, dram_free_list = \<lparr>head = Some 11, counter = 12\<rparr>,
     the_partition = \<lparr>ht = Map.empty, cooling_queue = [], next_node = 0\<rparr>,
     cooling_bfs_counter = 0, ssd_used_pages_counter = 1,
     swips = (\<lambda>_. Unswizzled 7), ssd = (\<lambda>p. ex_page p 5), ssd_partial = ex_partial\<rparr>"

text \<open>The same pool with an empty free list.\<close>

definition ex_empty :: BufferManager where
  "ex_empty = ex_pool\<lparr>dram_free_list := \<lparr>head = None, counter = 0\<rparr>\<rparr>"

text \<open>
  The free list is empty while its counter still reads 10: the counter is a field of
  its own, updated after the head, and approximate (spec 4.2).
\<close>

definition ex_drained :: BufferManager where
  "ex_drained = ex_pool\<lparr>dram_free_list := \<lparr>head = None, counter = 10\<rparr>\<rparr>"

text \<open>
  A read guard on the root frame 12, and the state after \<open>resolve_swip\<close> has loaded
  page 7 for swip 0 (Case A): the page sits in frame 11, cooling.
\<close>

definition ex_guard :: ReadGuard where
  "ex_guard = ReadGuard_of 12 ex_pool"

definition ex_loaded :: BufferManager where
  "ex_loaded = snd (snd (resolveSwip 4096 [4096] ex_guard 0 ex_pool))"

text \<open>
  The CIOFrame of page 7 in \<open>ex_loaded\<close>, and the state and guard after the next
  \<open>resolve_swip\<close> on swip 0 (Case C): frame 11 is HOT and swip 0 is swizzled to it.
\<close>

definition ex_cio :: CIOFrame where
  "ex_cio = \<lparr>cio_state = COOLING, fifo_itr = 0, readers_counter = 1, mutex_locked = False\<rparr>"

definition ex_hot :: BufferManager where
  "ex_hot = snd (snd (resolveSwip 4096 [] ex_guard 0 ex_loaded))"

definition ex_guard_hot :: ReadGuard where
  "ex_guard_hot = fst (snd (resolveSwip 4096 [] ex_guard 0 ex_loaded))"

text \<open>
  A write buffer with room for two pages, and a state with three cold frames in the
  cooling queue: frame 9 (page 9) is being written back, frame 11 (page 7) is clean,
  frame 10 (page 8) is dirty. Frames 0 to 8 are free.
\<close>

definition ex_awb :: AsyncWriteBuffer where
  "ex_awb = \<lparr>batch_max_size = 2, batch = []\<rparr>"

definition ex_cio_at :: "fifo_iterator \<Rightarrow> CIOFrame" where
  "ex_cio_at itr = \<lparr>cio_state = COOLING, fifo_itr = itr, readers_counter = 0, mutex_locked = False\<rparr>"

definition ex_cooling_bfs :: "bf_ptr \<Rightarrow> BufferFrame" where
  "ex_cooling_bfs i =
     (if i = 11
      then \<lparr>header = Header_init\<lparr>lastWrittenLSN := 5, state := COLD, pid := 7\<rparr>,
            page = ex_page 7 5\<rparr>
      else if i = 10
      then \<lparr>header = Header_init\<lparr>lastWrittenLSN := 5, state := COLD, pid := 8\<rparr>,
            page = ex_page 8 6\<rparr>
      else if i = 9
      then \<lparr>header = Header_init\<lparr>lastWrittenLSN := 5, state := COLD, isWB := True, pid := 9\<rparr>,
            page = ex_page 9 6\<rparr>
      else ex_bfs i)"

definition ex_cooling :: BufferManager where
  "ex_cooling = \<lparr>bfs = ex_cooling_bfs, dram_free_list = \<lparr>head = Some 8, counter = 9\<rparr>,
     the_partition = \<lparr>ht = [9 \<mapsto> ex_cio_at 0, 7 \<mapsto> ex_cio_at 1, 8 \<mapsto> ex_cio_at 2],
       cooling_queue = [(0, 9), (1, 11), (2, 10)], next_node = 3\<rparr>,
     cooling_bfs_counter = 3, ssd_used_pages_counter = 10,
     swips = (\<lambda>_. Unswizzled 7), ssd = (\<lambda>p. ex_page p 5), ssd_partial = ex_partial\<rparr>"

text \<open>
  The run behind C1, starting from \<open>ex_hot\<close>, where frame 11 holds page 7, HOT and
  clean with LSN 5. The owner modifies the page (LSN 6); Phase 1 cools the frame;
  Phase 2 finds it dirty and hands it to the write buffer, which records LSN 6;
  \<open>resolve_swip\<close> makes the frame HOT again; the owner modifies the page once more
  (LSN 7); Phase 1 cools the frame again; the write completes and Phase 3 visits it.
  \<open>ex_fresh\<close> is the payload a newly constructed frame has.
\<close>

definition ex_fresh :: Page where
  "ex_fresh = ex_page 0 0"

definition ex_t1 :: BufferManager where
  "ex_t1 = modify_page 11 6 ex_hot"

definition ex_t2 :: BufferManager where
  "ex_t2 = snd (phase_1_unswizzle (ReadGuard_of 11 ex_t1) 11 0 (ReadGuard_of 12 ex_t1) ex_t1)"

definition ex_t3 :: "AsyncWriteBuffer \<times> BufferManager" where
  "ex_t3 = snd (phase_2 12 (ex_awb, ex_t2))"

definition ex_t4 :: BufferManager where
  "ex_t4 = snd (snd (resolveSwip 4096 [] (ReadGuard_of 12 (snd ex_t3)) 0 (snd ex_t3)))"

definition ex_t5 :: BufferManager where
  "ex_t5 = modify_page 11 7 ex_t4"

definition ex_t6 :: BufferManager where
  "ex_t6 = snd (phase_1_unswizzle (ReadGuard_of 11 ex_t5) 11 0 (ReadGuard_of 12 ex_t5) ex_t5)"

definition ex_t7 :: "AsyncWriteBuffer \<times> BufferManager" where
  "ex_t7 = snd (phase_3 1 ex_fresh (fst ex_t3, ex_t6))"

section \<open>Verification\<close>

lemmas upd_defs = set_header_def set_page_def upd_partition_def

lemmas ex_defs = ex_pool_def ex_bfs_def ex_page_def Header_init_def exclusively_latched_def

subsection \<open>FreeList::pop\<close>

text \<open>
  C9. \<open>FreeList.pop()\<close> on an empty list (head null) signals Restart and removes
  nothing: the state is the one before the call. On a non-empty list whose head
  frame satisfies the two assertions (state FREE, latch not exclusive) it returns
  the head frame, the head becomes that frame's successor, the counter goes down by
  one, the returned frame is FREE and off the list, and no other frame changes.
  Whenever \<open>pop\<close> returns a frame at all, it is the former head and its state is
  FREE.
\<close>

theorem C9_FreeList_pop:
  "(head (dram_free_list s) = None \<longrightarrow> FreeList_pop s = (Inl Restart, s)) \<and>
   (\<forall>bf. head (dram_free_list s) = Some bf \<and> state (header (bfs s bf)) = FREE
          \<and> \<not> exclusively_latched (lock (header (bfs s bf))) \<longrightarrow>
      fst (FreeList_pop s) = Inr bf \<and>
      head (dram_free_list (snd (FreeList_pop s))) = next_free_bf (header (bfs s bf)) \<and>
      counter (dram_free_list (snd (FreeList_pop s))) = counter (dram_free_list s) - 1 \<and>
      state (header (bfs (snd (FreeList_pop s)) bf)) = FREE \<and>
      next_free_bf (header (bfs (snd (FreeList_pop s)) bf)) = None \<and>
      (\<forall>b. b \<noteq> bf \<longrightarrow> bfs (snd (FreeList_pop s)) b = bfs s b)) \<and>
   (\<forall>bf. fst (FreeList_pop s) = Inr bf \<longrightarrow>
      head (dram_free_list s) = Some bf \<and> state (header (bfs (snd (FreeList_pop s)) bf)) = FREE)"
  by (auto simp: FreeList_pop_def Let_def upd_defs split: option.splits if_splits)

theorem C9_FreeList_pop_witness:
  "FreeList_pop ex_empty = (Inl Restart, ex_empty) \<and>
   fst (FreeList_pop ex_pool) = Inr 11 \<and>
   head (dram_free_list (snd (FreeList_pop ex_pool))) = Some 10 \<and>
   counter (dram_free_list (snd (FreeList_pop ex_pool))) = 11 \<and>
   state (header (bfs (snd (FreeList_pop ex_pool)) 11)) = FREE"
proof -
  have e: "head (dram_free_list ex_empty) = None"
    by (simp add: ex_empty_def)
  have h: "head (dram_free_list ex_pool) = Some 11 \<and> state (header (bfs ex_pool 11)) = FREE
      \<and> \<not> exclusively_latched (lock (header (bfs ex_pool 11)))"
    by (simp add: ex_defs)
  have n: "next_free_bf (header (bfs ex_pool 11)) = Some 10"
    "counter (dram_free_list ex_pool) = 12"
    by (simp_all add: ex_defs)
  from C9_FreeList_pop [of ex_empty] e
  have 1: "FreeList_pop ex_empty = (Inl Restart, ex_empty)"
    by blast
  from C9_FreeList_pop [of ex_pool] h
  have 2: "fst (FreeList_pop ex_pool) = Inr 11 \<and>
      head (dram_free_list (snd (FreeList_pop ex_pool))) = next_free_bf (header (bfs ex_pool 11)) \<and>
      counter (dram_free_list (snd (FreeList_pop ex_pool))) = counter (dram_free_list ex_pool) - 1 \<and>
      state (header (bfs (snd (FreeList_pop ex_pool)) 11)) = FREE"
    by blast
  show ?thesis using 1 2 by (simp add: n)
qed

subsection \<open>allocatePage\<close>

text \<open>
  C4. Every successful call of \<open>allocate_page\<close> returns a frame whose state is HOT,
  whose latch word is 2 (held exclusively), whose pid is the value the next-pid
  counter had before the call, the counter being one higher afterwards, and whose
  \<open>last_written_lsn\<close> and \<open>page.LSN\<close> are both 0.
\<close>

theorem C4_allocatePage:
  assumes "allocatePage s = (Inr bf, s')"
  shows "state (header (bfs s' bf)) = HOT \<and>
         lock (header (bfs s' bf)) = 2 \<and>
         exclusively_latched (lock (header (bfs s' bf))) \<and>
         pid (header (bfs s' bf)) = ssd_used_pages_counter s \<and>
         ssd_used_pages_counter s' = ssd_used_pages_counter s + 1 \<and>
         lastWrittenLSN (header (bfs s' bf)) = 0 \<and>
         LSN (page (bfs s' bf)) = 0"
  using assms
  by (auto simp: allocatePage_def FreeList_pop_def Let_def upd_defs exclusively_latched_def
           split: if_splits option.splits prod.splits sum.splits)

lemma allocatePage_ex_pool: "fst (allocatePage ex_pool) = Inr 11"
  by (simp add: allocatePage_def FreeList_pop_def Let_def upd_defs ex_defs)

theorem C4_allocatePage_witness:
  "fst (allocatePage ex_pool) = Inr 11 \<and>
   state (header (bfs (snd (allocatePage ex_pool)) 11)) = HOT \<and>
   lock (header (bfs (snd (allocatePage ex_pool)) 11)) = 2 \<and>
   pid (header (bfs (snd (allocatePage ex_pool)) 11)) = 1 \<and>
   ssd_used_pages_counter (snd (allocatePage ex_pool)) = 2 \<and>
   lastWrittenLSN (header (bfs (snd (allocatePage ex_pool)) 11)) = 0 \<and>
   LSN (page (bfs (snd (allocatePage ex_pool)) 11)) = 0"
proof -
  have h: "allocatePage ex_pool = (Inr 11, snd (allocatePage ex_pool))"
    using allocatePage_ex_pool by (simp add: prod_eq_iff)
  have c: "ssd_used_pages_counter ex_pool = 1"
    by (simp add: ex_pool_def)
  from C4_allocatePage [OF h] c allocatePage_ex_pool show ?thesis by simp
qed

text \<open>
  C5, as stated: whenever \<open>allocate_page\<close> raises Restart the whole state, the
  next-pid counter included, is as before the call. On \<open>ex_drained\<close> the check of
  the free-list counter passes, the next-pid counter is incremented, and then
  \<open>pop\<close> finds the list empty and raises Restart: the counter went from 1 to 2.
\<close>

theorem C5_allocatePage_restart_counterexample:
  "fst (allocatePage ex_drained) = Inl Restart \<and>
   ssd_used_pages_counter ex_drained = 1 \<and>
   ssd_used_pages_counter (snd (allocatePage ex_drained)) = 2"
  by (simp add: allocatePage_def FreeList_pop_def Let_def ex_drained_def ex_pool_def)

text \<open>
  C5, amended. Whenever \<open>allocate_page\<close> raises Restart, the free list (head and
  counter), every frame and the partition are exactly as before the call; and when
  the Restart comes from the free-list counter being below 10, the whole state, the
  next-pid counter included, is unchanged.
\<close>

theorem C5_allocatePage_restart:
  assumes "allocatePage s = (Inl Restart, s')"
  shows "bfs s' = bfs s \<and> dram_free_list s' = dram_free_list s \<and>
         the_partition s' = the_partition s \<and>
         (counter (dram_free_list s) < 10 \<longrightarrow> s' = s)"
  using assms
  by (auto simp: allocatePage_def FreeList_pop_def Let_def upd_defs
           split: if_splits option.splits prod.splits sum.splits)

theorem C5_allocatePage_restart_witness:
  "allocatePage ex_empty = (Inl Restart, ex_empty) \<and>
   fst (allocatePage ex_drained) = Inl Restart \<and>
   bfs (snd (allocatePage ex_drained)) = bfs ex_drained \<and>
   dram_free_list (snd (allocatePage ex_drained)) = dram_free_list ex_drained"
proof -
  have a1: "fst (allocatePage ex_empty) = Inl Restart"
    by (simp add: allocatePage_def ex_empty_def)
  have b1: "fst (allocatePage ex_drained) = Inl Restart"
    by (simp add: allocatePage_def FreeList_pop_def Let_def ex_drained_def ex_pool_def)
  have a: "allocatePage ex_empty = (Inl Restart, snd (allocatePage ex_empty))"
    using a1 by (simp add: prod_eq_iff)
  have b: "allocatePage ex_drained = (Inl Restart, snd (allocatePage ex_drained))"
    using b1 by (simp add: prod_eq_iff)
  have c: "counter (dram_free_list ex_empty) < 10"
    by (simp add: ex_empty_def)
  from C5_allocatePage_restart [OF a] c have a2: "snd (allocatePage ex_empty) = ex_empty"
    by blast
  have a3: "allocatePage ex_empty = (Inl Restart, ex_empty)"
    using a1 a2 by (simp add: prod_eq_iff)
  from C5_allocatePage_restart [OF b] b1 a3 show ?thesis by simp
qed

subsection \<open>readPageSync\<close>

text \<open>
  C7 says that a failed \<open>pread\<close> aborts the process and that \<open>read_page_sync\<close>
  never reads on after it. The source does not look at the sign of the value
  \<open>pread\<close> returns. With a page size of 4096 and page 7, a first \<open>pread\<close> that
  fails with -1 makes \<open>bytes_left\<close> 4097; the function issues a second request for
  4097 bytes one byte before the page, a third one, and returns normally.
\<close>

theorem C7_readPageSync_continues_after_failure:
  "readPageSync 4096 7 [-1, 4096, 1] = Some (Inr [(4096, 28672), (4097, 28671), (1, 32767)])"
  by (simp add: readPageSync_def to_int_def to_s64_def)

text \<open>The assertion in the loop never fails: no run of the loop ends in Fatal.\<close>

lemma readPageSync_loop_never_Fatal:
  "0 < bytes_left \<Longrightarrow>
   readPageSync_loop PAGE_SIZE pd bytes_left preads reqs \<noteq> Some (Inl Fatal)"
  by (induction preads arbitrary: bytes_left reqs) (auto simp: Let_def)

subsection \<open>State updates field by field\<close>

lemma set_header_fields [simp]:
  "bfs (set_header b f s) = (bfs s)(b := (bfs s b)\<lparr>header := f (header (bfs s b))\<rparr>)"
  "dram_free_list (set_header b f s) = dram_free_list s"
  "the_partition (set_header b f s) = the_partition s"
  "cooling_bfs_counter (set_header b f s) = cooling_bfs_counter s"
  "ssd_used_pages_counter (set_header b f s) = ssd_used_pages_counter s"
  "swips (set_header b f s) = swips s"
  "ssd (set_header b f s) = ssd s"
  "ssd_partial (set_header b f s) = ssd_partial s"
  by (simp_all add: set_header_def)

lemma set_page_fields [simp]:
  "bfs (set_page b f s) = (bfs s)(b := (bfs s b)\<lparr>page := f (page (bfs s b))\<rparr>)"
  "dram_free_list (set_page b f s) = dram_free_list s"
  "the_partition (set_page b f s) = the_partition s"
  "cooling_bfs_counter (set_page b f s) = cooling_bfs_counter s"
  "ssd_used_pages_counter (set_page b f s) = ssd_used_pages_counter s"
  "swips (set_page b f s) = swips s"
  "ssd (set_page b f s) = ssd s"
  "ssd_partial (set_page b f s) = ssd_partial s"
  by (simp_all add: set_page_def)

lemma upd_partition_fields [simp]:
  "bfs (upd_partition f s) = bfs s"
  "dram_free_list (upd_partition f s) = dram_free_list s"
  "the_partition (upd_partition f s) = f (the_partition s)"
  "cooling_bfs_counter (upd_partition f s) = cooling_bfs_counter s"
  "ssd_used_pages_counter (upd_partition f s) = ssd_used_pages_counter s"
  "swips (upd_partition f s) = swips s"
  "ssd (upd_partition f s) = ssd s"
  "ssd_partial (upd_partition f s) = ssd_partial s"
  by (simp_all add: upd_partition_def)

lemma partition_op_fields [simp]:
  "ht (ht_insert pd p) = (ht p)(pd \<mapsto> CIOFrame_init)"
  "cooling_queue (ht_insert pd p) = cooling_queue p"
  "next_node (ht_insert pd p) = next_node p"
  "ht (ht_remove pd p) = (ht p)(pd := None)"
  "cooling_queue (ht_remove pd p) = cooling_queue p"
  "next_node (ht_remove pd p) = next_node p"
  "ht (set_cio pd f p) = (case ht p pd of None \<Rightarrow> ht p | Some c \<Rightarrow> (ht p)(pd \<mapsto> f c))"
  "cooling_queue (set_cio pd f p) = cooling_queue p"
  "next_node (set_cio pd f p) = next_node p"
  "ht (queue_push_back bf p) = ht p"
  "cooling_queue (queue_push_back bf p) = cooling_queue p @ [(next_node p, bf)]"
  "next_node (queue_push_back bf p) = next_node p + 1"
  "ht (queue_erase itr p) = ht p"
  "cooling_queue (queue_erase itr p) = filter (\<lambda>n. fst n \<noteq> itr) (cooling_queue p)"
  "next_node (queue_erase itr p) = next_node p"
  by (simp_all add: ht_insert_def ht_remove_def set_cio_def queue_push_back_def queue_erase_def)

subsection \<open>resolveSwip, Case A\<close>

lemma FreeList_pop_Some:
  assumes "head (dram_free_list s) = Some b"
      and "state (header (bfs s b)) = FREE"
      and "\<not> exclusively_latched (lock (header (bfs s b)))"
  shows "FreeList_pop s =
     (Inr b, (set_header b (next_free_bf_update (\<lambda>_. None)) s)
        \<lparr>dram_free_list := \<lparr>head = next_free_bf (header (bfs s b)),
                            counter = counter (dram_free_list s) - 1\<rparr>\<rparr>)"
  using assms by (simp add: FreeList_pop_def Let_def set_header_def)

text \<open>Case A never returns a frame, whatever the device does.\<close>

lemma resolveSwip_miss_isl:
  "fst (resolveSwip_miss PAGE_SIZE preads g pd s) \<noteq> Inr bf"
  unfolding resolveSwip_miss_def Let_def
  by (simp split: prod.split sum.split option.split)

text \<open>
  A page offset that does not overflow is a multiple of the page size, and a device
  that answers the first \<^verbatim>\<open>pread\<close> with the whole page ends the loop of
  \<^verbatim>\<open>readPageSync\<close> after one request and leaves the image of the page.
\<close>

lemma page_offset_aligned:
  fixes pd PAGE_SIZE :: u64
  assumes "0 < PAGE_SIZE" and "unat pd * unat PAGE_SIZE < 2 ^ 64"
  shows "(pd * PAGE_SIZE) mod PAGE_SIZE = 0" and "(pd * PAGE_SIZE) div PAGE_SIZE = pd"
proof -
  have m: "unat (pd * PAGE_SIZE) = unat pd * unat PAGE_SIZE"
    using assms(2) by (simp add: unat_mult_lem [THEN iffD1])
  have p: "0 < unat PAGE_SIZE"
    using assms(1) by (simp add: word_less_nat_alt)
  have "unat ((pd * PAGE_SIZE) mod PAGE_SIZE) = 0"
    by (simp add: unat_mod m)
  then show "(pd * PAGE_SIZE) mod PAGE_SIZE = 0"
    by (simp add: unat_eq_zero)
  have "unat ((pd * PAGE_SIZE) div PAGE_SIZE) = unat pd"
    using p by (simp add: unat_div m)
  then show "(pd * PAGE_SIZE) div PAGE_SIZE = pd"
    by (simp add: word_unat_eq_iff)
qed

lemma to_int_id: "- (2 ^ 31) \<le> r \<Longrightarrow> r < 2 ^ 31 \<Longrightarrow> to_int r = r"
  by (simp add: to_int_def sint_sbintrunc' signed_take_bit_int_eq_self)

lemma to_s64_id: "- (2 ^ 63) \<le> x \<Longrightarrow> x < 2 ^ 63 \<Longrightarrow> to_s64 x = x"
  by (simp add: to_s64_def sint_sbintrunc' signed_take_bit_int_eq_self)

lemma readPageSync_whole:
  fixes PAGE_SIZE :: u64
  assumes "0 < PAGE_SIZE" and "PAGE_SIZE < 2 ^ 31"
  shows "readPageSync PAGE_SIZE pd (uint PAGE_SIZE # rest) =
           Some (Inr [(uint PAGE_SIZE, pd * PAGE_SIZE)])"
proof -
  have u: "0 < uint PAGE_SIZE" "uint PAGE_SIZE < 2 ^ 31"
    using assms by (simp_all add: word_less_def)
  have s: "sint PAGE_SIZE = uint PAGE_SIZE"
    using u by (simp add: sint_uint signed_take_bit_int_eq_self)
  have i: "to_int (uint PAGE_SIZE) = uint PAGE_SIZE"
    using u by (simp add: to_int_id)
  have z: "to_s64 0 = 0"
    by (simp add: to_s64_id)
  show ?thesis
    using u by (simp add: readPageSync_def s i z Let_def)
qed

lemma pread_into_whole:
  fixes PAGE_SIZE :: u64
  assumes "0 < PAGE_SIZE" and "unat pd * unat PAGE_SIZE < 2 ^ 64"
  shows "pread_into PAGE_SIZE s ((uint PAGE_SIZE, pd * PAGE_SIZE), uint PAGE_SIZE) dest =
           Some (ssd s pd)"
proof -
  have "0 < uint PAGE_SIZE"
    using assms(1) by (simp add: word_less_def)
  then show ?thesis
    by (simp add: pread_into_def page_offset_aligned [OF assms])
qed

text \<open>
  With such a device, a usable frame at the head of the free list and the page's pid
  as its magic number on disk, Case A loads the page, puts the frame into the cooling
  queue and raises Restart.
\<close>

lemma resolveSwip_miss_whole_read:
  fixes PAGE_SIZE :: u64
  assumes "\<not> counter (dram_free_list s) < 10"
      and "head (dram_free_list s) = Some b"
      and "state (header (bfs s b)) = FREE"
      and "\<not> exclusively_latched (lock (header (bfs s b)))"
      and "0 < PAGE_SIZE" and "PAGE_SIZE < 2 ^ 31"
      and "unat pd * unat PAGE_SIZE < 2 ^ 64"
      and "magic_debugging_number (ssd s pd) = pd"
      and "ht (the_partition s) pd = None"
  shows "fst (resolveSwip_miss PAGE_SIZE (uint PAGE_SIZE # rest) g pd s) = Inl Restart"
    and "page (bfs (snd (snd (resolveSwip_miss PAGE_SIZE (uint PAGE_SIZE # rest) g pd s))) b) =
           ssd s pd"
    and "header (bfs (snd (snd (resolveSwip_miss PAGE_SIZE (uint PAGE_SIZE # rest) g pd s))) b) =
           \<lparr>lastWrittenLSN = LSN (ssd s pd), state = COLD, isWB = False,
            isCooledBecauseOfReading = True, pid = pd, lock = 0, next_free_bf = None\<rparr>"
    and "dram_free_list (snd (snd (resolveSwip_miss PAGE_SIZE (uint PAGE_SIZE # rest) g pd s))) =
           \<lparr>head = next_free_bf (header (bfs s b)), counter = counter (dram_free_list s) - 1\<rparr>"
    and "cooling_queue (the_partition
           (snd (snd (resolveSwip_miss PAGE_SIZE (uint PAGE_SIZE # rest) g pd s)))) =
           cooling_queue (the_partition s) @ [(next_node (the_partition s), b)]"
    and "ht (the_partition (snd (snd (resolveSwip_miss PAGE_SIZE (uint PAGE_SIZE # rest) g pd s)))) =
           (ht (the_partition s))(pd \<mapsto> \<lparr>cio_state = COOLING,
               fifo_itr = next_node (the_partition s), readers_counter = 1, mutex_locked = False\<rparr>)"
    and "cooling_bfs_counter (snd (snd (resolveSwip_miss PAGE_SIZE (uint PAGE_SIZE # rest) g pd s))) =
           cooling_bfs_counter s + 1"
    and "swips (snd (snd (resolveSwip_miss PAGE_SIZE (uint PAGE_SIZE # rest) g pd s))) = swips s"
  using assms(1-4,8,9)
  by (simp_all add: resolveSwip_miss_def FreeList_pop_Some Let_def CIOFrame_init_def
        readPageSync_whole [OF assms(5,6)] pread_into_whole [OF assms(5,7)])

text \<open>
  A device that answers the first \<^verbatim>\<open>pread\<close> of a 4096-byte page with 1000
  bytes and the second with the other 3096: both requests name the beginning of the
  buffer, so on any file the buffer ends as the 3096 bytes written over the 1000.
\<close>

lemma short_read_buffer:
  "readPageSync 4096 pd [1000, 3096] =
     Some (Inr [(4096, pd * 4096), (3096, pd * 4096 + 1000)])"
  "pread_all 4096 s (zip [(4096, pd * 4096), (3096, pd * 4096 + 1000)] [1000, 3096]) dest =
     Some (ssd_partial s (pd * 4096 + 1000) 3096 (ssd_partial s (pd * 4096) 1000 dest))"
  by (simp_all add: readPageSync_def to_int_def to_s64_def pread_into_def)

lemma ex_guard_simps: "version_ptr ex_guard = 12" "local_version ex_guard = 0"
  by (simp_all add: ex_guard_def ReadGuard_of_def ex_defs)

text \<open>
  C3 says that every call of \<open>resolve_swip\<close> that misses the hash table with at
  least 10 free frames reads the page from disk into the frame it popped and then
  raises Restart. On \<open>ex_pool\<close>, with pages of 4096 bytes, let the device answer the
  first \<^verbatim>\<open>pread\<close> for page 7 with the first 1000 bytes and the second with
  the other 3096: both succeed and together deliver the whole page. The source
  passes \<^verbatim>\<open>destination\<close> to the second request as it did to the first, so the
  3096 bytes land at the beginning of the buffer, over the 1000. \<open>readPageSync\<close>
  returns, the frame does not hold page 7, and the call ends at the assertion on the
  magic number instead of raising Restart.
\<close>

theorem C3_resolveSwip_short_read:
  "swips ex_pool 0 = Unswizzled 7 \<and>
   ht (the_partition ex_pool) 7 = None \<and>
   counter (dram_free_list ex_pool) = 12 \<and>
   ssd ex_pool 7 = ex_page 7 5 \<and>
   readPageSync 4096 7 [1000, 3096] = Some (Inr [(4096, 28672), (3096, 29672)]) \<and>
   fst (resolveSwip 4096 [1000, 3096] ex_guard 0 ex_pool) = Inl Fatal \<and>
   page (bfs (snd (snd (resolveSwip 4096 [1000, 3096] ex_guard 0 ex_pool))) 11) = ex_page 0 0"
  by code_simp

subsection \<open>resolveSwip, Case C\<close>

lemma ExclusiveGuard_acquire_ok:
  assumes "recheck g s" and "\<not> exclusively_latched (local_version g)"
  shows "ExclusiveGuard_acquire g s =
     (Inr (g\<lparr>local_version := local_version g + 2\<rparr>),
      set_header (version_ptr g) (lock_update (\<lambda>_. local_version g + 2)) s)"
  using assms by (simp add: ExclusiveGuard_acquire_def recheck_def)

lemma ExclusiveGuard_release_fields [simp]:
  "fst (ExclusiveGuard_release g s) =
     g\<lparr>local_version := lock (header (bfs s (version_ptr g))) + 2\<rparr>"
  "snd (ExclusiveGuard_release g s) =
     set_header (version_ptr g) (lock_update (\<lambda>_. lock (header (bfs s (version_ptr g))) + 2)) s"
  by (simp_all add: ExclusiveGuard_release_def Let_def)

lemma resolveSwip_cooling_trace:
  assumes "map_of (cooling_queue (the_partition s)) (fifo_itr cio_frame) = Some bf"
      and "recheck g s" and "\<not> exclusively_latched (local_version g)"
      and "pid (header (bfs s bf)) = pd"
      and "state (header (bfs s bf)) = COLD"
  shows "\<exists>s0 s1 s2 s3 s4 s5 s6 s7 g'.
           resolveSwip_cooling g swip_value pd cio_frame s =
             (Inr bf, g', [s0, s1, s2, s3, s4, s5, s6, s7]) \<and>
           swips s0 = swips s \<and> state (header (bfs s0 bf)) = COLD \<and>
           swips s1 swip_value = Swizzled bf \<and> state (header (bfs s1 bf)) = COLD \<and>
           swips s2 swip_value = Swizzled bf \<and> state (header (bfs s2 bf)) = COLD \<and>
           swips s3 swip_value = Swizzled bf \<and> state (header (bfs s3 bf)) = COLD \<and>
           swips s4 swip_value = Swizzled bf \<and> state (header (bfs s4 bf)) = HOT \<and>
           swips s7 swip_value = Swizzled bf \<and> state (header (bfs s7 bf)) = HOT \<and>
           cooling_queue (the_partition s7) =
             filter (\<lambda>n. fst n \<noteq> fifo_itr cio_frame) (cooling_queue (the_partition s)) \<and>
           cooling_bfs_counter s7 = cooling_bfs_counter s - 1 \<and>
           recheck g' s7"
  using assms
  by (auto simp: resolveSwip_cooling_def ExclusiveGuard_acquire_ok Let_def recheck_def)


lemma map_of_filter_out: "map_of (filter (\<lambda>n. fst n \<noteq> k) xs) k = None"
  by (induction xs) auto

text \<open>
  C2. A call of \<open>resolve_swip\<close> on an unswizzled swip whose pid is in the hash
  table with a COOLING CIOFrame (the guard passing its recheck, the CIOFrame's
  iterator naming a queue node that holds a COLD frame of that pid, as the two
  assertions demand) returns that frame; afterwards the frame is HOT, the swip is
  swizzled to it, its node is gone from the cooling queue and cooling_count is one
  lower. In the sequence of states the call goes through, the swip is swizzled to the
  frame at a state strictly before the first one in which the frame is HOT.
\<close>

theorem C2_resolveSwip_cooling:
  assumes "swips s swip_value = Unswizzled pd"
      and "recheck g s" and "\<not> exclusively_latched (local_version g)"
      and "ht (the_partition s) pd = Some cio_frame"
      and "cio_state cio_frame = COOLING"
      and "map_of (cooling_queue (the_partition s)) (fifo_itr cio_frame) = Some bf"
      and "pid (header (bfs s bf)) = pd"
      and "state (header (bfs s bf)) = COLD"
  shows "let r = resolveSwip PAGE_SIZE preads g swip_value s;
             s' = snd (snd r);
             tr = snd (snd (resolveSwip_cooling g swip_value pd cio_frame s))
         in fst r = Inr bf \<and> s' = last tr \<and>
            state (header (bfs s' bf)) = HOT \<and>
            swips s' swip_value = Swizzled bf \<and>
            cooling_queue (the_partition s') =
              filter (\<lambda>n. fst n \<noteq> fifo_itr cio_frame) (cooling_queue (the_partition s)) \<and>
            map_of (cooling_queue (the_partition s')) (fifo_itr cio_frame) = None \<and>
            cooling_bfs_counter s' = cooling_bfs_counter s - 1 \<and>
            (\<exists>i j. i < j \<and> j < length tr \<and>
               (\<forall>k<i. swips (tr ! k) swip_value \<noteq> Swizzled bf) \<and>
               swips (tr ! i) swip_value = Swizzled bf \<and>
               (\<forall>k<j. state (header (bfs (tr ! k) bf)) = COLD) \<and>
               state (header (bfs (tr ! j) bf)) = HOT)"
proof -
  from resolveSwip_cooling_trace [OF assms(6) assms(2) assms(3) assms(7) assms(8), of swip_value]
  obtain s0 s1 s2 s3 s4 s5 s6 s7 g' where
    c: "resolveSwip_cooling g swip_value pd cio_frame s =
          (Inr bf, g', [s0, s1, s2, s3, s4, s5, s6, s7])"
    and t0: "swips s0 = swips s" "state (header (bfs s0 bf)) = COLD"
    and t1: "swips s1 swip_value = Swizzled bf" "state (header (bfs s1 bf)) = COLD"
    and t2: "state (header (bfs s2 bf)) = COLD"
    and t3: "state (header (bfs s3 bf)) = COLD"
    and t4: "state (header (bfs s4 bf)) = HOT"
    and t7: "swips s7 swip_value = Swizzled bf" "state (header (bfs s7 bf)) = HOT"
      "cooling_queue (the_partition s7) =
         filter (\<lambda>n. fst n \<noteq> fifo_itr cio_frame) (cooling_queue (the_partition s))"
      "cooling_bfs_counter s7 = cooling_bfs_counter s - 1"
    by blast
  have r: "resolveSwip PAGE_SIZE preads g swip_value s = (Inr bf, g', s7)"
    using assms(1,2,4,5) c by (simp add: resolveSwip_def)
  have before: "\<forall>k<1. swips ([s0, s1, s2, s3, s4, s5, s6, s7] ! k) swip_value \<noteq> Swizzled bf"
    using t0 assms(1) by simp
  have cold: "\<forall>k<4. state (header (bfs ([s0, s1, s2, s3, s4, s5, s6, s7] ! k) bf)) = COLD"
  proof (intro allI impI)
    fix k :: nat
    assume "k < 4"
    then have "k = 0 \<or> k = 1 \<or> k = 2 \<or> k = 3" by arith
    then show "state (header (bfs ([s0, s1, s2, s3, s4, s5, s6, s7] ! k) bf)) = COLD"
      using t0 t1 t2 t3 by auto
  qed
  have order: "\<exists>i j. i < j \<and> j < length [s0, s1, s2, s3, s4, s5, s6, s7] \<and>
      (\<forall>k<i. swips ([s0, s1, s2, s3, s4, s5, s6, s7] ! k) swip_value \<noteq> Swizzled bf) \<and>
      swips ([s0, s1, s2, s3, s4, s5, s6, s7] ! i) swip_value = Swizzled bf \<and>
      (\<forall>k<j. state (header (bfs ([s0, s1, s2, s3, s4, s5, s6, s7] ! k) bf)) = COLD) \<and>
      state (header (bfs ([s0, s1, s2, s3, s4, s5, s6, s7] ! j) bf)) = HOT"
    apply (rule exI [of _ 1])
    apply (rule exI [of _ 4])
    using before cold t1 t4 by simp
  show ?thesis
    unfolding Let_def r c using t7 order by (simp add: map_of_filter_out)
qed

lemma resolveSwip_reading_isl:
  "fst (resolveSwip_reading g pd s) \<noteq> Inr bf"
  unfolding resolveSwip_reading_def Let_def
  by (simp split: option.split)

lemma resolveSwip_cooling_Inr:
  assumes "resolveSwip_cooling g swip_value pd cio_frame s = (Inr bf, g', tr)"
  shows "swips (last tr) swip_value = Swizzled bf"
  using assms
  by (auto simp: resolveSwip_cooling_def Let_def split: option.splits prod.splits sum.splits if_splits)

text \<open>
  C8. If \<open>resolve_swip\<close> returns a frame for a swip and a parent guard, and the
  guard passes a recheck afterwards, a second call with the same swip and guard
  returns the same frame pointer (and changes nothing).
\<close>

theorem C8_resolveSwip_idempotent:
  assumes "resolveSwip PAGE_SIZE preads g swip_value s = (Inr bf, g', s')"
      and "recheck g' s'"
  shows "resolveSwip PAGE_SIZE preads' g' swip_value s' = (Inr bf, g', s')"
proof (cases "swips s swip_value")
  case (Swizzled b)
  with assms(1) have "bf = b \<and> g' = g \<and> s' = s"
    by (simp add: resolveSwip_def split: if_splits)
  with Swizzled assms(2) show ?thesis
    by (simp add: resolveSwip_def)
next
  case (Unswizzled pd)
  show ?thesis
  proof (cases "ht (the_partition s) pd")
    case None
    with Unswizzled assms(1) resolveSwip_miss_isl [of PAGE_SIZE preads g pd s bf]
    show ?thesis
      by (simp add: resolveSwip_def split: if_splits)
  next
    case (Some cio_frame)
    show ?thesis
    proof (cases "cio_state cio_frame")
      case READING
      with Unswizzled Some assms(1) resolveSwip_reading_isl [of g pd s bf]
      show ?thesis
        by (simp add: resolveSwip_def split: if_splits)
    next
      case COOLING
      with Unswizzled Some assms(1)
      obtain tr where c: "resolveSwip_cooling g swip_value pd cio_frame s = (Inr bf, g', tr)"
        and l: "s' = last tr"
        by (auto simp: resolveSwip_def split: if_splits prod.splits)
      from resolveSwip_cooling_Inr [OF c] l have "swips s' swip_value = Swizzled bf"
        by simp
      with assms(2) show ?thesis
        by (simp add: resolveSwip_def)
    qed
  qed
qed


subsection \<open>The example run: page 7 is loaded, then resolved\<close>

lemma ex_loaded_fields:
  "bfs ex_loaded = ex_bfs(11 := \<lparr>header = \<lparr>lastWrittenLSN = 5, state = COLD, isWB = False,
       isCooledBecauseOfReading = True, pid = 7, lock = 0, next_free_bf = None\<rparr>,
       page = ex_page 7 5\<rparr>)"
  "dram_free_list ex_loaded = \<lparr>head = Some 10, counter = 11\<rparr>"
  "the_partition ex_loaded = \<lparr>ht = [7 \<mapsto> ex_cio], cooling_queue = [(0, 11)], next_node = 1\<rparr>"
  "cooling_bfs_counter ex_loaded = 1"
  "ssd_used_pages_counter ex_loaded = 1"
  "swips ex_loaded = (\<lambda>_. Unswizzled 7)"
  "ssd ex_loaded = (\<lambda>p. ex_page p 5)"
  by (simp_all add: ex_loaded_def resolveSwip_def resolveSwip_miss_def recheck_def ex_guard_simps
        FreeList_pop_def readPageSync_def to_int_def to_s64_def pread_into_def
        Let_def ex_defs ex_cio_def CIOFrame_init_def fun_eq_iff)


lemma ex_hot_fields:
  "bfs ex_hot = ex_bfs(11 := \<lparr>header = \<lparr>lastWrittenLSN = 5, state = HOT, isWB = False,
       isCooledBecauseOfReading = True, pid = 7, lock = 0, next_free_bf = None\<rparr>,
       page = ex_page 7 5\<rparr>,
     12 := \<lparr>header = Header_init\<lparr>state := HOT, lock := 4\<rparr>, page = ex_page 0 0\<rparr>)"
  "dram_free_list ex_hot = \<lparr>head = Some 10, counter = 11\<rparr>"
  "the_partition ex_hot = \<lparr>ht = Map.empty, cooling_queue = [], next_node = 1\<rparr>"
  "cooling_bfs_counter ex_hot = 0"
  "ssd_used_pages_counter ex_hot = 1"
  "swips ex_hot = (\<lambda>_. Unswizzled 7)(0 := Swizzled 11)"
  "ssd ex_hot = (\<lambda>p. ex_page p 5)"
  "ex_guard_hot = \<lparr>version_ptr = 12, local_version = 4\<rparr>"
  "fst (resolveSwip 4096 [] ex_guard 0 ex_loaded) = Inr 11"
  by (simp_all add: ex_hot_def ex_guard_hot_def resolveSwip_def resolveSwip_cooling_def recheck_def
        ExclusiveGuard_acquire_def ex_guard_simps ex_loaded_fields
        Let_def ex_defs ex_cio_def fun_eq_iff)

theorem C2_resolveSwip_cooling_witness:
  "fst (resolveSwip 4096 [] ex_guard 0 ex_loaded) = Inr 11 \<and>
   state (header (bfs ex_hot 11)) = HOT \<and>
   swips ex_hot 0 = Swizzled 11 \<and>
   cooling_queue (the_partition ex_hot) = [] \<and>
   cooling_bfs_counter ex_hot = 0"
proof -
  have a: "swips ex_loaded 0 = Unswizzled 7" "recheck ex_guard ex_loaded"
    "\<not> exclusively_latched (local_version ex_guard)"
    "ht (the_partition ex_loaded) 7 = Some ex_cio" "cio_state ex_cio = COOLING"
    "map_of (cooling_queue (the_partition ex_loaded)) (fifo_itr ex_cio) = Some 11"
    "pid (header (bfs ex_loaded 11)) = 7" "state (header (bfs ex_loaded 11)) = COLD"
    by (simp_all add: ex_loaded_fields recheck_def ex_guard_simps ex_cio_def ex_defs)
  have b: "cooling_queue (the_partition ex_loaded) = [(0, 11)]" "fifo_itr ex_cio = 0"
    "cooling_bfs_counter ex_loaded = 1"
    by (simp_all add: ex_loaded_fields ex_cio_def)
  from C2_resolveSwip_cooling [OF a, of 4096 "[]"] show ?thesis
    unfolding Let_def ex_hot_def [symmetric] by (simp add: b)
qed

theorem C8_resolveSwip_idempotent_witness:
  "resolveSwip 4096 [] ex_guard 0 ex_loaded = (Inr 11, ex_guard_hot, ex_hot) \<and>
   recheck ex_guard_hot ex_hot \<and>
   resolveSwip 4096 [] ex_guard_hot 0 ex_hot = (Inr 11, ex_guard_hot, ex_hot)"
proof -
  have a: "resolveSwip 4096 [] ex_guard 0 ex_loaded = (Inr 11, ex_guard_hot, ex_hot)"
    using ex_hot_fields(9) by (simp add: prod_eq_iff ex_hot_def ex_guard_hot_def)
  have b: "recheck ex_guard_hot ex_hot"
    by (simp add: recheck_def ex_hot_fields)
  from C8_resolveSwip_idempotent [OF a b, of "[]"] a b show ?thesis by simp
qed

subsection \<open>Page provider: Phase 2 and Phase 3\<close>

lemma phase_2_loop_scan:
  "phase_2_loop n q st = scan_frames (take (unat n) q) st"
proof (induction q arbitrary: n st)
  case Nil
  then show ?case by simp
next
  case (Cons node rest)
  show ?case
  proof (cases "n = 0")
    case True
    then show ?thesis by simp
  next
    case False
    then have "unat n = Suc (unat (n - 1))"
      by (simp add: unat_minus_one unat_gt_0)
    with False Cons.IH show ?thesis
      by (simp split: prod.split sum.split)
  qed
qed

lemma phase_2_scan:
  "phase_2 free_pages_limit (awb, s) =
     (if counter (dram_free_list s) < free_pages_limit
      then scan_frames (take (unat (free_pages_limit - counter (dram_free_list s)))
                          (cooling_queue (the_partition s))) (awb, s)
      else (Inr (), awb, s))"
  by (simp add: phase_2_def phase_2_loop_scan)

lemma phase_2_visit_skip:
  assumes "isWB (header (bfs s bf)) \<or> isCooledBecauseOfReading (header (bfs s bf))"
  shows "phase_2_visit bf_itr bf (awb, s) = (Inr (), awb, s)"
  using assms by (auto simp: phase_2_visit_def)

lemma FreeList_push_ok:
  assumes "state (header (bfs s bf)) = FREE"
      and "\<not> exclusively_latched (lock (header (bfs s bf)))"
  shows "FreeList_push bf s =
     (Inr (), (set_header bf (next_free_bf_update (\<lambda>_. head (dram_free_list s))) s)
                \<lparr>dram_free_list := \<lparr>head = Some bf, counter = counter (dram_free_list s) + 1\<rparr>\<rparr>)"
  using assms by (simp add: FreeList_push_def)

lemma Header_init_pushable [simp]:
  "state Header_init = FREE" "\<not> exclusively_latched (lock Header_init)"
  by (simp_all add: Header_init_def exclusively_latched_def)

lemma phase_2_visit_clean:
  assumes "\<not> isWB (header (bfs s bf))" and "\<not> isCooledBecauseOfReading (header (bfs s bf))"
      and "\<not> isDirty (bfs s bf)"
      and "ht (the_partition s) (pid (header (bfs s bf))) = Some h"
      and "cio_state h = COOLING"
      and "state (header (bfs s bf)) = COLD"
  shows "fst (phase_2_visit bf_itr bf (awb, s)) = Inr ()"
    and "fst (snd (phase_2_visit bf_itr bf (awb, s))) = awb"
    and "ht (the_partition (snd (snd (phase_2_visit bf_itr bf (awb, s))))) =
           (ht (the_partition s))(pid (header (bfs s bf)) := None)"
    and "cooling_queue (the_partition (snd (snd (phase_2_visit bf_itr bf (awb, s))))) =
           filter (\<lambda>n. fst n \<noteq> bf_itr) (cooling_queue (the_partition s))"
    and "header (bfs (snd (snd (phase_2_visit bf_itr bf (awb, s)))) bf) =
           Header_init\<lparr>next_free_bf := head (dram_free_list s)\<rparr>"
    and "page (bfs (snd (snd (phase_2_visit bf_itr bf (awb, s)))) bf) = page (bfs s bf)"
    and "dram_free_list (snd (snd (phase_2_visit bf_itr bf (awb, s)))) =
           \<lparr>head = Some bf, counter = counter (dram_free_list s) + 1\<rparr>"
    and "cooling_bfs_counter (snd (snd (phase_2_visit bf_itr bf (awb, s)))) =
           cooling_bfs_counter s - 1"
  using assms
  by (simp_all add: phase_2_visit_def Let_def FreeList_push_ok)

lemma phase_2_visit_dirty:
  assumes "\<not> isWB (header (bfs s bf))" and "\<not> isCooledBecauseOfReading (header (bfs s bf))"
      and "isDirty (bfs s bf)"
  shows "phase_2_visit bf_itr bf (awb, s) =
     (if length (batch awb) < batch_max_size awb
      then (Inr (), awb\<lparr>batch := batch awb @ [(bf, LSN (page (bfs s bf)))]\<rparr>,
            set_header bf (isWB_update (\<lambda>_. True)) s)
      else (Inr (), awb, s))"
  using assms
  by (simp add: phase_2_visit_def Let_def AsyncWriteBuffer_add_def)

lemma phase_2_visit_page:
  "page (bfs (snd (snd (phase_2_visit bf_itr bf st))) b) = page (bfs (snd st) b)"
  by (cases st)
     (simp add: phase_2_visit_def Let_def FreeList_push_def AsyncWriteBuffer_add_def
           split: option.split prod.split sum.split)

lemma scan_frames_page:
  "page (bfs (snd (snd (scan_frames q st))) b) = page (bfs (snd st) b)"
proof (induction q arbitrary: st)
  case Nil
  then show ?case by simp
next
  case (Cons node rest)
  show ?case
  proof (cases "phase_2_visit (fst node) (snd node) st")
    case (fields r awb' s')
    with phase_2_visit_page [of "fst node" "snd node" st b]
    have p: "page (bfs s' b) = page (bfs (snd st) b)" by simp
    show ?thesis
    proof (cases r)
      case (Inl e)
      with fields p show ?thesis by simp
    next
      case (Inr u)
      with fields p Cons.IH [of "(awb', s')"] show ?thesis by simp
    qed
  qed
qed

lemma phase_2_page:
  "page (bfs (snd (snd (phase_2 free_pages_limit (awb, s)))) b) = page (bfs s b)"
  using scan_frames_page [of _ "(awb, s)" b] by (simp add: phase_2_scan)

lemma phase_3_visit_evict:
  assumes "isWB (header (bfs s bf))"
      and "state (header (bfs s bf)) = COLD"
      and "ht (the_partition s) (pid (header (bfs s bf))) = Some h"
      and "cio_state h = COOLING"
  shows "fst (phase_3_visit fresh (bf, written_lsn) s) = Inr ()"
    and "bfs (snd (phase_3_visit fresh (bf, written_lsn) s)) bf =
           \<lparr>header = Header_init\<lparr>next_free_bf := head (dram_free_list s)\<rparr>, page = fresh\<rparr>"
    and "dram_free_list (snd (phase_3_visit fresh (bf, written_lsn) s)) =
           \<lparr>head = Some bf, counter = counter (dram_free_list s) + 1\<rparr>"
  using assms
  by (simp_all add: phase_3_visit_def Let_def FreeList_push_def)


text \<open>
  C6. When the free-list counter is below \<open>free_pages_limit\<close>, Phase 2 visits
  the first \<open>free_pages_limit - counter\<close> nodes of the cooling queue (fewer when the
  queue is shorter), in order, and nothing else; otherwise it does nothing. A visited
  frame whose is_wb or is_cooled_because_of_reading flag is set is skipped: nothing
  changes. A visited clean frame (its CIOFrame COOLING and the frame COLD, as
  asserted) loses its CIOFrame and its queue node, gets a default header, is pushed
  onto the free list, and cooling_count goes down by one. A visited dirty frame is
  offered to the write buffer: it is staged with its LSN and marked is_wb when there is
  room, and left as it is when the buffer is saturated.
\<close>

theorem C6_phase_2:
  "phase_2 free_pages_limit (awb, s) =
     (if counter (dram_free_list s) < free_pages_limit
      then scan_frames (take (unat (free_pages_limit - counter (dram_free_list s)))
                          (cooling_queue (the_partition s))) (awb, s)
      else (Inr (), awb, s)) \<and>
   (isWB (header (bfs s bf)) \<or> isCooledBecauseOfReading (header (bfs s bf)) \<longrightarrow>
      phase_2_visit bf_itr bf (awb, s) = (Inr (), awb, s)) \<and>
   (\<not> isWB (header (bfs s bf)) \<and> \<not> isCooledBecauseOfReading (header (bfs s bf)) \<and>
    \<not> isDirty (bfs s bf) \<and> ht (the_partition s) (pid (header (bfs s bf))) = Some h \<and>
    cio_state h = COOLING \<and> state (header (bfs s bf)) = COLD \<longrightarrow>
      (let r = phase_2_visit bf_itr bf (awb, s); s' = snd (snd r)
       in fst r = Inr () \<and> fst (snd r) = awb \<and>
          ht (the_partition s') = (ht (the_partition s))(pid (header (bfs s bf)) := None) \<and>
          cooling_queue (the_partition s') =
            filter (\<lambda>n. fst n \<noteq> bf_itr) (cooling_queue (the_partition s)) \<and>
          header (bfs s' bf) = Header_init\<lparr>next_free_bf := head (dram_free_list s)\<rparr> \<and>
          dram_free_list s' = \<lparr>head = Some bf, counter = counter (dram_free_list s) + 1\<rparr> \<and>
          cooling_bfs_counter s' = cooling_bfs_counter s - 1)) \<and>
   (\<not> isWB (header (bfs s bf)) \<and> \<not> isCooledBecauseOfReading (header (bfs s bf)) \<and>
    isDirty (bfs s bf) \<longrightarrow>
      phase_2_visit bf_itr bf (awb, s) =
        (if length (batch awb) < batch_max_size awb
         then (Inr (), awb\<lparr>batch := batch awb @ [(bf, LSN (page (bfs s bf)))]\<rparr>,
               set_header bf (isWB_update (\<lambda>_. True)) s)
         else (Inr (), awb, s)))"
proof (intro conjI impI)
  show "phase_2 free_pages_limit (awb, s) =
     (if counter (dram_free_list s) < free_pages_limit
      then scan_frames (take (unat (free_pages_limit - counter (dram_free_list s)))
                          (cooling_queue (the_partition s))) (awb, s)
      else (Inr (), awb, s))"
    by (rule phase_2_scan)
next
  assume "isWB (header (bfs s bf)) \<or> isCooledBecauseOfReading (header (bfs s bf))"
  then show "phase_2_visit bf_itr bf (awb, s) = (Inr (), awb, s)"
    by (rule phase_2_visit_skip)
next
  assume a: "\<not> isWB (header (bfs s bf)) \<and> \<not> isCooledBecauseOfReading (header (bfs s bf)) \<and>
    \<not> isDirty (bfs s bf) \<and> ht (the_partition s) (pid (header (bfs s bf))) = Some h \<and>
    cio_state h = COOLING \<and> state (header (bfs s bf)) = COLD"
  then have b: "\<not> isWB (header (bfs s bf))" "\<not> isCooledBecauseOfReading (header (bfs s bf))"
    "\<not> isDirty (bfs s bf)" "ht (the_partition s) (pid (header (bfs s bf))) = Some h"
    "cio_state h = COOLING" "state (header (bfs s bf)) = COLD"
    by blast+
  show "let r = phase_2_visit bf_itr bf (awb, s); s' = snd (snd r)
       in fst r = Inr () \<and> fst (snd r) = awb \<and>
          ht (the_partition s') = (ht (the_partition s))(pid (header (bfs s bf)) := None) \<and>
          cooling_queue (the_partition s') =
            filter (\<lambda>n. fst n \<noteq> bf_itr) (cooling_queue (the_partition s)) \<and>
          header (bfs s' bf) = Header_init\<lparr>next_free_bf := head (dram_free_list s)\<rparr> \<and>
          dram_free_list s' = \<lparr>head = Some bf, counter = counter (dram_free_list s) + 1\<rparr> \<and>
          cooling_bfs_counter s' = cooling_bfs_counter s - 1"
    unfolding Let_def
    by (intro conjI) (rule phase_2_visit_clean [OF b])+
next
  assume "\<not> isWB (header (bfs s bf)) \<and> \<not> isCooledBecauseOfReading (header (bfs s bf)) \<and>
    isDirty (bfs s bf)"
  then have b: "\<not> isWB (header (bfs s bf))" "\<not> isCooledBecauseOfReading (header (bfs s bf))"
    "isDirty (bfs s bf)"
    by blast+
  show "phase_2_visit bf_itr bf (awb, s) =
        (if length (batch awb) < batch_max_size awb
         then (Inr (), awb\<lparr>batch := batch awb @ [(bf, LSN (page (bfs s bf)))]\<rparr>,
               set_header bf (isWB_update (\<lambda>_. True)) s)
         else (Inr (), awb, s))"
    by (rule phase_2_visit_dirty [OF b])
qed



lemma ex_cooling_frames:
  "header (bfs ex_cooling 9) = Header_init\<lparr>lastWrittenLSN := 5, state := COLD, isWB := True, pid := 9\<rparr>"
  "header (bfs ex_cooling 10) = Header_init\<lparr>lastWrittenLSN := 5, state := COLD, pid := 8\<rparr>"
  "header (bfs ex_cooling 11) = Header_init\<lparr>lastWrittenLSN := 5, state := COLD, pid := 7\<rparr>"
  "page (bfs ex_cooling 9) = ex_page 9 6"
  "page (bfs ex_cooling 10) = ex_page 8 6"
  "page (bfs ex_cooling 11) = ex_page 7 5"
  "dram_free_list ex_cooling = \<lparr>head = Some 8, counter = 9\<rparr>"
  "cooling_queue (the_partition ex_cooling) = [(0, 9), (1, 11), (2, 10)]"
  "ht (the_partition ex_cooling) 7 = Some (ex_cio_at 1)"
  "ht (the_partition ex_cooling) 9 = Some (ex_cio_at 0)"
  "cooling_bfs_counter ex_cooling = 3"
  by (simp_all add: ex_cooling_def ex_cooling_bfs_def)

lemma ex_cooling_hyps:
  "counter (dram_free_list ex_cooling) < 12"
  "take (unat (12 - counter (dram_free_list ex_cooling))) (cooling_queue (the_partition ex_cooling))
     = [(0, 9), (1, 11), (2, 10)]"
  "isWB (header (bfs ex_cooling 9)) \<or> isCooledBecauseOfReading (header (bfs ex_cooling 9))"
  "\<not> isWB (header (bfs ex_cooling 11)) \<and>
      \<not> isCooledBecauseOfReading (header (bfs ex_cooling 11)) \<and>
      \<not> isDirty (bfs ex_cooling 11) \<and>
      ht (the_partition ex_cooling) (pid (header (bfs ex_cooling 11))) = Some (ex_cio_at 1) \<and>
      cio_state (ex_cio_at 1) = COOLING \<and> state (header (bfs ex_cooling 11)) = COLD"
  "\<not> isWB (header (bfs ex_cooling 10)) \<and>
      \<not> isCooledBecauseOfReading (header (bfs ex_cooling 10)) \<and> isDirty (bfs ex_cooling 10)"
  by (simp_all add: ex_cooling_frames isDirty_def Header_init_def ex_page_def ex_cio_at_def)


theorem C6_phase_2_witness:
  "phase_2 12 (ex_awb, ex_cooling) = scan_frames [(0, 9), (1, 11), (2, 10)] (ex_awb, ex_cooling) \<and>
   phase_2_visit 0 9 (ex_awb, ex_cooling) = (Inr (), ex_awb, ex_cooling) \<and>
   fst (phase_2_visit 1 11 (ex_awb, ex_cooling)) = Inr () \<and>
   dram_free_list (snd (snd (phase_2_visit 1 11 (ex_awb, ex_cooling)))) =
     \<lparr>head = Some 11, counter = 10\<rparr> \<and>
   cooling_queue (the_partition (snd (snd (phase_2_visit 1 11 (ex_awb, ex_cooling))))) =
     [(0, 9), (2, 10)] \<and>
   cooling_bfs_counter (snd (snd (phase_2_visit 1 11 (ex_awb, ex_cooling)))) = 2 \<and>
   phase_2_visit 2 10 (ex_awb, ex_cooling) =
     (Inr (), ex_awb\<lparr>batch := [(10, 6)]\<rparr>, set_header 10 (isWB_update (\<lambda>_. True)) ex_cooling)"
proof -
  note c9 = C6_phase_2 [where free_pages_limit = 12 and awb = ex_awb and s = ex_cooling
        and bf = 9 and bf_itr = 0 and h = "ex_cio_at 0"]
  note c11 = C6_phase_2 [where free_pages_limit = 12 and awb = ex_awb and s = ex_cooling
        and bf = 11 and bf_itr = 1 and h = "ex_cio_at 1"]
  note c10 = C6_phase_2 [where free_pages_limit = 12 and awb = ex_awb and s = ex_cooling
        and bf = 10 and bf_itr = 2 and h = "ex_cio_at 2"]
  have 1: "phase_2 12 (ex_awb, ex_cooling) =
      scan_frames [(0, 9), (1, 11), (2, 10)] (ex_awb, ex_cooling)"
    by (simp only: c9 [THEN conjunct1] ex_cooling_hyps(1,2) if_True)
  have 2: "phase_2_visit 0 9 (ex_awb, ex_cooling) = (Inr (), ex_awb, ex_cooling)"
    by (rule c9 [THEN conjunct2, THEN conjunct1, THEN mp, OF ex_cooling_hyps(3)])
  note n3 = c11 [THEN conjunct2, THEN conjunct2, THEN conjunct1, THEN mp, OF ex_cooling_hyps(4),
      unfolded Let_def]
  have e1: "fst (phase_2_visit 1 11 (ex_awb, ex_cooling)) = Inr ()"
    using n3 by (rule conjunct1)
  have e2: "dram_free_list (snd (snd (phase_2_visit 1 11 (ex_awb, ex_cooling)))) =
     \<lparr>head = Some 11, counter = 10\<rparr>"
    using n3 [THEN conjunct2, THEN conjunct2, THEN conjunct2, THEN conjunct2, THEN conjunct2,
      THEN conjunct1]
    by (simp add: ex_cooling_frames)
  have e3: "cooling_queue (the_partition (snd (snd (phase_2_visit 1 11 (ex_awb, ex_cooling))))) =
     [(0, 9), (2, 10)]"
    using n3 [THEN conjunct2, THEN conjunct2, THEN conjunct2, THEN conjunct1]
    by (simp add: ex_cooling_frames)
  have e4: "cooling_bfs_counter (snd (snd (phase_2_visit 1 11 (ex_awb, ex_cooling)))) = 2"
    using n3 [THEN conjunct2, THEN conjunct2, THEN conjunct2, THEN conjunct2, THEN conjunct2,
      THEN conjunct2]
    by (simp add: ex_cooling_frames)
  have 4: "phase_2_visit 2 10 (ex_awb, ex_cooling) =
     (Inr (), ex_awb\<lparr>batch := [(10, 6)]\<rparr>, set_header 10 (isWB_update (\<lambda>_. True)) ex_cooling)"
    by (simp only: c10 [THEN conjunct2, THEN conjunct2, THEN conjunct2, THEN mp,
          OF ex_cooling_hyps(5)])
       (simp add: ex_awb_def ex_cooling_frames ex_page_def)
  from 1 2 e1 e2 e3 e4 4 show ?thesis
    by (intro conjI)
qed


text \<open>
  C10. Phase 2 changes no byte of any page payload: after it every frame has the
  payload it had before. A clean cold frame it evicts has its header alone set to
  the default (and linked into the free list). Phase 3's eviction constructs the
  whole frame anew instead: header and payload are those of a new frame.
\<close>

theorem C10_phase_2_keeps_payload:
  "(\<forall>b. page (bfs (snd (snd (phase_2 free_pages_limit (awb, s)))) b) = page (bfs s b)) \<and>
   (\<not> isWB (header (bfs s bf)) \<and> \<not> isCooledBecauseOfReading (header (bfs s bf)) \<and>
    \<not> isDirty (bfs s bf) \<and> ht (the_partition s) (pid (header (bfs s bf))) = Some h \<and>
    cio_state h = COOLING \<and> state (header (bfs s bf)) = COLD \<longrightarrow>
      (let s' = snd (snd (phase_2_visit bf_itr bf (awb, s)))
       in page (bfs s' bf) = page (bfs s bf) \<and>
          header (bfs s' bf) = Header_init\<lparr>next_free_bf := head (dram_free_list s)\<rparr> \<and>
          dram_free_list s' = \<lparr>head = Some bf, counter = counter (dram_free_list s) + 1\<rparr>)) \<and>
   (isWB (header (bfs s bf)) \<and> state (header (bfs s bf)) = COLD \<and>
    ht (the_partition s) (pid (header (bfs s bf))) = Some h \<and> cio_state h = COOLING \<longrightarrow>
      (let r = phase_3_visit fresh (bf, written_lsn) s
       in fst r = Inr () \<and>
          bfs (snd r) bf =
            \<lparr>header = Header_init\<lparr>next_free_bf := head (dram_free_list s)\<rparr>, page = fresh\<rparr> \<and>
          dram_free_list (snd r) = \<lparr>head = Some bf, counter = counter (dram_free_list s) + 1\<rparr>))"
proof (intro conjI impI allI)
  fix b
  show "page (bfs (snd (snd (phase_2 free_pages_limit (awb, s)))) b) = page (bfs s b)"
    by (rule phase_2_page)
next
  assume "\<not> isWB (header (bfs s bf)) \<and> \<not> isCooledBecauseOfReading (header (bfs s bf)) \<and>
    \<not> isDirty (bfs s bf) \<and> ht (the_partition s) (pid (header (bfs s bf))) = Some h \<and>
    cio_state h = COOLING \<and> state (header (bfs s bf)) = COLD"
  then have b: "\<not> isWB (header (bfs s bf))" "\<not> isCooledBecauseOfReading (header (bfs s bf))"
    "\<not> isDirty (bfs s bf)" "ht (the_partition s) (pid (header (bfs s bf))) = Some h"
    "cio_state h = COOLING" "state (header (bfs s bf)) = COLD"
    by blast+
  show "let s' = snd (snd (phase_2_visit bf_itr bf (awb, s)))
       in page (bfs s' bf) = page (bfs s bf) \<and>
          header (bfs s' bf) = Header_init\<lparr>next_free_bf := head (dram_free_list s)\<rparr> \<and>
          dram_free_list s' = \<lparr>head = Some bf, counter = counter (dram_free_list s) + 1\<rparr>"
    unfolding Let_def
    by (intro conjI) (rule phase_2_visit_clean [OF b])+
next
  assume "isWB (header (bfs s bf)) \<and> state (header (bfs s bf)) = COLD \<and>
    ht (the_partition s) (pid (header (bfs s bf))) = Some h \<and> cio_state h = COOLING"
  then have b: "isWB (header (bfs s bf))" "state (header (bfs s bf)) = COLD"
    "ht (the_partition s) (pid (header (bfs s bf))) = Some h" "cio_state h = COOLING"
    by blast+
  show "let r = phase_3_visit fresh (bf, written_lsn) s
       in fst r = Inr () \<and>
          bfs (snd r) bf =
            \<lparr>header = Header_init\<lparr>next_free_bf := head (dram_free_list s)\<rparr>, page = fresh\<rparr> \<and>
          dram_free_list (snd r) = \<lparr>head = Some bf, counter = counter (dram_free_list s) + 1\<rparr>"
    unfolding Let_def
    by (intro conjI) (rule phase_3_visit_evict [OF b])+
qed

theorem C10_phase_2_keeps_payload_witness:
  "page (bfs (snd (snd (phase_2 12 (ex_awb, ex_cooling)))) 11) = ex_page 7 5 \<and>
   page (bfs (snd (snd (phase_2_visit 1 11 (ex_awb, ex_cooling)))) 11) = ex_page 7 5 \<and>
   header (bfs (snd (snd (phase_2_visit 1 11 (ex_awb, ex_cooling)))) 11) =
     Header_init\<lparr>next_free_bf := Some 8\<rparr> \<and>
   fst (phase_3_visit ex_fresh (9, 6) ex_cooling) = Inr () \<and>
   bfs (snd (phase_3_visit ex_fresh (9, 6) ex_cooling)) 9 =
     \<lparr>header = Header_init\<lparr>next_free_bf := Some 8\<rparr>, page = ex_fresh\<rparr>"
proof -
  note c = C10_phase_2_keeps_payload [where free_pages_limit = 12 and awb = ex_awb
      and s = ex_cooling and bf = 11 and bf_itr = 1 and h = "ex_cio_at 1"]
  note d = C10_phase_2_keeps_payload [where free_pages_limit = 12 and awb = ex_awb
      and s = ex_cooling and bf = 9 and bf_itr = 0 and h = "ex_cio_at 0"
      and fresh = ex_fresh and written_lsn = 6]
  have w: "isWB (header (bfs ex_cooling 9)) \<and> state (header (bfs ex_cooling 9)) = COLD \<and>
    ht (the_partition ex_cooling) (pid (header (bfs ex_cooling 9))) = Some (ex_cio_at 0) \<and>
    cio_state (ex_cio_at 0) = COOLING"
    by (simp add: ex_cooling_frames Header_init_def ex_cio_at_def)
  have 1: "page (bfs (snd (snd (phase_2 12 (ex_awb, ex_cooling)))) 11) = ex_page 7 5"
    using c [THEN conjunct1, THEN spec, of 11] by (simp add: ex_cooling_frames)
  note n2 = c [THEN conjunct2, THEN conjunct1, THEN mp, OF ex_cooling_hyps(4), unfolded Let_def]
  have 2: "page (bfs (snd (snd (phase_2_visit 1 11 (ex_awb, ex_cooling)))) 11) = ex_page 7 5"
    using n2 [THEN conjunct1] by (simp add: ex_cooling_frames)
  have 3: "header (bfs (snd (snd (phase_2_visit 1 11 (ex_awb, ex_cooling)))) 11) =
     Header_init\<lparr>next_free_bf := Some 8\<rparr>"
    using n2 [THEN conjunct2, THEN conjunct1] by (simp add: ex_cooling_frames)
  note n4 = d [THEN conjunct2, THEN conjunct2, THEN mp, OF w, unfolded Let_def]
  have 4: "fst (phase_3_visit ex_fresh (9, 6) ex_cooling) = Inr ()"
    using n4 by (rule conjunct1)
  have 5: "bfs (snd (phase_3_visit ex_fresh (9, 6) ex_cooling)) 9 =
     \<lparr>header = Header_init\<lparr>next_free_bf := Some 8\<rparr>, page = ex_fresh\<rparr>"
    using n4 [THEN conjunct2, THEN conjunct1] by (simp add: ex_cooling_frames)
  from 1 2 3 4 5 show ?thesis
    by (intro conjI)
qed

text \<open>
  C1 says that no dirty frame is ever pushed onto the free list. In the run
  \<open>ex_t1\<close> to \<open>ex_t7\<close> frame 11 is cold, marked is_wb, and its page has LSN 7
  when the write that copied it at LSN 6 completes. Phase 3 applies 6 as
  last_written_lsn, which leaves the frame dirty, and finding it COLD evicts it
  without looking: the frame ends FREE at the head of the free list, the swip names
  the page on disk, and the modification with LSN 7 was never written. Phase 1 cools
  frames that are being written (the test of \<^verbatim>\<open>isWB\<close> is commented out in the
  source), and Phase 3, unlike Phase 2, does not test \<^verbatim>\<open>isDirty\<close>.
\<close>

theorem C1_dirty_frame_reclaimed:
  "state (header (bfs ex_t6 11)) = COLD \<and>
   isWB (header (bfs ex_t6 11)) \<and>
   LSN (page (bfs ex_t6 11)) = 7 \<and>
   batch (fst ex_t3) = [(11, 6)] \<and>
   isDirty (bfs (set_header 11 (lastWrittenLSN_update (\<lambda>_. 6)) ex_t6) 11) \<and>
   fst (phase_3 1 ex_fresh (fst ex_t3, ex_t6)) = Inr () \<and>
   head (dram_free_list (snd ex_t7)) = Some 11 \<and>
   state (header (bfs (snd ex_t7) 11)) = FREE \<and>
   swips (snd ex_t7) 0 = Unswizzled 7"
  by code_simp

end
